theory Spec2Isabelle
  imports Complex_Main "HOL-Library.Log_Nat" "HOL-Library.Multiset"
begin

section \<open>JavaScript values and built-ins used by the sources\<close>

subsection \<open>Numbers\<close>

text \<open>
  A JavaScript number is an IEEE-754 double: a finite value, an infinity or \<open>NaN\<close>. A
  finite double is represented by the rational it denotes. The two zeros are identified:
  they differ only as divisors, and the one divisor of the sources that can be zero is
  \<open>data.length\<close>, which is \<open>+0\<close>.
\<close>

datatype number = Fin rat | PosInf | NegInf | NaN

text \<open>
  Every arithmetic operation returns the exact result rounded to the nearest double, ties
  to the even significand. \<open>ilog2 q\<close> is the binary exponent of a positive rational,
  \<open>\<lfloor>log\<^sub>2 q\<rfloor>\<close>. A double has 53 significant bits, so the spacing of the doubles around
  \<open>q\<close> is \<open>2\<close> to the power \<open>ilog2 \<bar>q\<bar> - 52\<close>, and never less than \<open>2\<close> to the
  power \<open>min_exp\<close>, the spacing of the subnormal numbers. A rounded value of magnitude
  \<open>huge\<close> or more is an infinity.
\<close>

definition round_even :: "rat \<Rightarrow> int" where
  "round_even q =
     (let f = \<lfloor>q\<rfloor>; d = q - of_int f
      in if d < 1 / 2 then f else if 1 / 2 < d then f + 1 else if even f then f else f + 1)"

definition ilog2 :: "rat \<Rightarrow> int" where
  "ilog2 q =
     (if 1 \<le> q then bitlen \<lfloor>q\<rfloor> - 1
      else (let b = bitlen \<lfloor>1 / q\<rfloor> in if 2 powi (1 - b) \<le> q then 1 - b else - b))"

definition min_exp :: int where
  "min_exp = - 1074"

definition huge :: rat where
  "huge = 2 ^ 1024"

definition round_double :: "rat \<Rightarrow> number" where
  "round_double q =
     (if q = 0 then Fin 0
      else
        (let e = max (ilog2 \<bar>q\<bar> - 52) min_exp;
             r = of_int (round_even (q / 2 powi e)) * 2 powi e
         in if huge \<le> r then PosInf
            else if r \<le> - huge then NegInf
            else Fin r))"

text \<open>
  A finite value of the model is a double when rounding leaves it as it is. Every finite
  double is a multiple of the smallest subnormal; the sign of a difference of two such
  multiples survives rounding.
\<close>

definition on_grid :: "rat \<Rightarrow> bool" where
  "on_grid r = (r / 2 powi min_exp = of_int \<lfloor>r / 2 powi min_exp\<rfloor>)"

fun grid_number :: "number \<Rightarrow> bool" where
  "grid_number (Fin r) = on_grid r"
| "grid_number x = True"


text \<open>The operators \<open>-x\<close>, \<open>x + y\<close>, \<open>x - y\<close>, \<open>x * y\<close> and \<open>x / y\<close>.\<close>

fun js_neg :: "number \<Rightarrow> number" where
  "js_neg (Fin a) = Fin (- a)"
| "js_neg PosInf = NegInf"
| "js_neg NegInf = PosInf"
| "js_neg NaN = NaN"

fun js_add :: "number \<Rightarrow> number \<Rightarrow> number" where
  "js_add (Fin a) (Fin b) = round_double (a + b)"
| "js_add NaN y = NaN"
| "js_add x NaN = NaN"
| "js_add PosInf NegInf = NaN"
| "js_add NegInf PosInf = NaN"
| "js_add PosInf y = PosInf"
| "js_add NegInf y = NegInf"
| "js_add x PosInf = PosInf"
| "js_add x NegInf = NegInf"

definition js_sub :: "number \<Rightarrow> number \<Rightarrow> number" where
  "js_sub x y = js_add x (js_neg y)"

fun js_mul :: "number \<Rightarrow> number \<Rightarrow> number" where
  "js_mul (Fin a) (Fin b) = round_double (a * b)"
| "js_mul NaN y = NaN"
| "js_mul x NaN = NaN"
| "js_mul (Fin a) y = (if a = 0 then NaN else if 0 < a then y else js_neg y)"
| "js_mul x (Fin b) = (if b = 0 then NaN else if 0 < b then x else js_neg x)"
| "js_mul PosInf y = y"
| "js_mul NegInf y = js_neg y"

fun js_div :: "number \<Rightarrow> number \<Rightarrow> number" where
  "js_div (Fin a) (Fin b) =
     (if b = 0 then (if a = 0 then NaN else if 0 < a then PosInf else NegInf)
      else round_double (a / b))"
| "js_div NaN y = NaN"
| "js_div x NaN = NaN"
| "js_div (Fin a) y = Fin 0"
| "js_div x (Fin b) = (if 0 \<le> b then x else js_neg x)"
| "js_div x y = NaN"

text \<open>
  The comparisons \<open>x > y\<close> and \<open>x <= y\<close>, both false when an operand is \<open>NaN\<close>;
  \<open>js_pos x\<close> is \<open>x > 0\<close>; \<open>truthy x\<close> is \<open>x\<close> as a condition.
\<close>

fun js_pos :: "number \<Rightarrow> bool" where
  "js_pos (Fin r) = (0 < r)"
| "js_pos PosInf = True"
| "js_pos x = False"

fun js_gt :: "number \<Rightarrow> number \<Rightarrow> bool" where
  "js_gt (Fin a) (Fin b) = (b < a)"
| "js_gt NaN y = False"
| "js_gt x NaN = False"
| "js_gt PosInf PosInf = False"
| "js_gt PosInf y = True"
| "js_gt x NegInf = (x \<noteq> NegInf)"
| "js_gt x y = False"

fun js_le :: "number \<Rightarrow> number \<Rightarrow> bool" where
  "js_le (Fin a) (Fin b) = (a \<le> b)"
| "js_le NaN y = False"
| "js_le x NaN = False"
| "js_le NegInf y = True"
| "js_le x PosInf = True"
| "js_le x y = False"

definition truthy :: "number \<Rightarrow> bool" where
  "truthy x = (x \<noteq> Fin 0 \<and> x \<noteq> NaN)"

subsection \<open>Errors, strings and arrays\<close>

datatype js_error = TypeError

text \<open>\<^verbatim>\<open>s.endsWith(suf)\<close>\<close>

definition endsWith :: "string \<Rightarrow> string \<Rightarrow> bool" where
  "endsWith s suf = (length suf \<le> length s \<and> drop (length s - length suf) s = suf)"

text \<open>
  \<^verbatim>\<open>Array.prototype.sort(cmp)\<close> is a built-in. ECMAScript requires it to be stable and, for
  a consistent comparator, to order the array by it; the model is the stable insertion sort
  in which an element goes in front of the first element it does not compare greater than.
  A comparator result that is \<open>NaN\<close> counts as 0.
\<close>

fun sort_insert :: "('a \<Rightarrow> 'a \<Rightarrow> number) \<Rightarrow> 'a \<Rightarrow> 'a list \<Rightarrow> 'a list" where
  "sort_insert cmp x [] = [x]"
| "sort_insert cmp x (y # ys) =
     (if js_pos (cmp x y) then y # sort_insert cmp x ys else x # y # ys)"

definition array_sort :: "('a \<Rightarrow> 'a \<Rightarrow> number) \<Rightarrow> 'a list \<Rightarrow> 'a list" where
  "array_sort cmp xs = foldr (sort_insert cmp) xs []"

section \<open>Sample-data endpoint (src/pages/api/sample-data.ts)\<close>

datatype sample_body = FilesBody "string list" | ErrorBody string

record sample_response =
  sample_status :: nat
  sample_json :: sample_body

text \<open>
  \<^verbatim>\<open>fs.readdir(dir)\<close> is the handler's only input: \<open>Inr files\<close> when the directory of
  static assets is read, \<open>Inl e\<close> when the read rejects.
\<close>

definition sample_handler :: "'e + string list \<Rightarrow> sample_response" where
  "sample_handler readdir =
     (case readdir of
        Inr files \<Rightarrow>
          (let slpFiles = filter (\<lambda>f. endsWith f ''.slp'') files
           in \<lparr>sample_status = 200, sample_json = FilesBody slpFiles\<rparr>)
      | Inl e \<Rightarrow>
          \<lparr>sample_status = 500, sample_json = ErrorBody ''Failed to list sample files''\<rparr>)"

section \<open>Summary statistics helpers (ReplayDataSummary)\<close>








section \<open>Upload endpoint (src/pages/api/parse-replay.ts)\<close>

text \<open>
  The file holds two handlers: the single-replay handler, which accepts one \<open>.slp\<close> upload,
  and the zip-batch handler, which accepts one \<open>.zip\<close> upload and parses every \<open>.slp\<close>
  entry of the archive. Both build the same \<open>IncomingForm\<close>. Building the form and
  starting the parse are taken not to throw, so the outermost \<open>catch\<close> (500
  \<open>Server error\<close>) has no branch here.
\<close>

record form_options =
  keepExtensions :: bool
  maxFileSize :: nat

definition IncomingForm_options :: form_options where
  "IncomingForm_options = \<lparr>keepExtensions = True, maxFileSize = 10 * 1024 * 1024\<rparr>"

record uploaded_file =
  originalFilename :: "string option"
  filepath :: string

text \<open>The request: \<open>req.method\<close> and the multipart body.\<close>

record 'r request =
  req_method :: string
  multipart :: 'r

text \<open>The file system: the content stored under each path.\<close>

type_synonym 'd files = "string \<Rightarrow> 'd option"

text \<open>
  What the handlers call but this repository does not define: formidable's
  \<open>form.parse\<close> (\<open>Inl\<close> is the callback's \<open>err\<close>, \<open>Inr\<close> carries
  \<open>files.replayFile\<close>; both carry the file system with the uploads formidable stored),
  \<open>process.env.APP_ENV\<close>, \<open>process.cwd()\<close>, \<open>path.join\<close>, fflate's
  \<open>unzipSync\<close> (the entries of the object it returns, in \<open>Object.entries\<close> order, or
  \<open>None\<close> when it throws), slippi-js's \<open>SlippiGame\<close> on the content of a replay
  (\<open>None\<close> when it throws), and whether the operating system lets a path be written or
  unlinked, which is taken to depend on the path only.
\<close>

record ('r, 'd, 'p) env =
  form_parse :: "form_options \<Rightarrow> 'r \<Rightarrow> 'd files \<Rightarrow> 'd files + (uploaded_file list option \<times> 'd files)"
  APP_ENV :: "string option"
  cwd :: string
  path_join :: "string \<Rightarrow> string \<Rightarrow> string"
  unzipSync :: "'d \<Rightarrow> (string \<times> 'd) list option"
  SlippiGame :: "'d \<Rightarrow> 'p option"
  write_ok :: "string \<Rightarrow> bool"
  unlink_ok :: "string \<Rightarrow> bool"

datatype event = ReadFile string | WriteFile string | ParseReplay string | Unlink string

datatype 'p entry_result = Parsed string 'p | Failed string string

datatype 'p body = Message string | Replay 'p | Results "'p entry_result list"

record 'p response =
  status :: nat
  json :: "'p body"

text \<open>
  A handler run yields the response sent, the file-system and parser calls made before it
  was sent (in order), and the file system left behind.
\<close>

record ('d, 'p) outcome =
  response :: "'p response"
  events :: "event list"
  disk :: "'d files"

definition reply :: "nat \<Rightarrow> string \<Rightarrow> event list \<Rightarrow> 'd files \<Rightarrow> ('d, 'p) outcome" where
  "reply code msg evs fs =
     \<lparr>response = \<lparr>status = code, json = Message msg\<rparr>, events = evs, disk = fs\<rparr>"

text \<open>\<open>!s\<close> for an optional string: \<open>undefined\<close>, \<open>null\<close> and the empty string are falsy.\<close>

definition falsy :: "string option \<Rightarrow> bool" where
  "falsy s = (s = None \<or> s = Some [])"

definition readFileSync :: "'d files \<Rightarrow> string \<Rightarrow> 'd option" where
  "readFileSync fs p = fs p"

definition writeFileSync ::
  "('r, 'd, 'p) env \<Rightarrow> 'd files \<Rightarrow> string \<Rightarrow> 'd \<Rightarrow> 'd files option" where
  "writeFileSync e fs p d = (if write_ok e p then Some (fs(p := Some d)) else None)"

definition unlinkSync :: "('r, 'd, 'p) env \<Rightarrow> 'd files \<Rightarrow> string \<Rightarrow> 'd files option" where
  "unlinkSync e fs p = (if fs p \<noteq> None \<and> unlink_ok e p then Some (fs(p := None)) else None)"

text \<open>
  \<open>parseSlippiReplay\<close> (lib/slippiParser.ts) opens the file at the path with
  \<open>SlippiGame\<close>, logs and rethrows whatever that throws.
\<close>

definition parseSlippiReplay :: "('r, 'd, 'p) env \<Rightarrow> 'd files \<Rightarrow> string \<Rightarrow> 'p option" where
  "parseSlippiReplay e fs filePath =
     (case fs filePath of None \<Rightarrow> None | Some d \<Rightarrow> SlippiGame e d)"

text \<open>\<open>unzipFile\<close> (lib/unzip.ts) hands its buffer to \<open>unzipSync\<close>.\<close>

definition unzipFile :: "('r, 'd, 'p) env \<Rightarrow> 'd \<Rightarrow> (string \<times> 'd) list option" where
  "unzipFile e buffer = unzipSync e buffer"

subsection \<open>The single-replay handler\<close>

definition handler_slp ::
  "('r, 'd, 'p) env \<Rightarrow> 'd files \<Rightarrow> 'r request \<Rightarrow> ('d, 'p) outcome" where
  "handler_slp e fs0 req =
     (if req_method req \<noteq> ''POST'' then reply 405 ''Method not allowed'' [] fs0
      else
        (case form_parse e IncomingForm_options (multipart req) fs0 of
           Inl fs \<Rightarrow> reply 500 ''Error parsing form data'' [] fs
         | Inr (replayFile, fs) \<Rightarrow>
             (case replayFile of
                None \<Rightarrow> reply 400 ''No replay file uploaded'' [] fs
              | Some [] \<Rightarrow> reply 400 ''No replay file uploaded'' [] fs
              | Some (file # _) \<Rightarrow>
                  if falsy (originalFilename file)
                     \<or> \<not> endsWith (the (originalFilename file)) ''.slp''
                  then reply 400 ''Only .slp files are accepted'' [] fs
                  else
                    (let tempPath = filepath file
                     in case parseSlippiReplay e fs tempPath of
                          None \<Rightarrow>
                            reply 500 ''Error parsing replay file'' [ParseReplay tempPath] fs
                        | Some replayData \<Rightarrow>
                            \<lparr>response = \<lparr>status = 200, json = Replay replayData\<rparr>,
                             events = [ParseReplay tempPath, Unlink tempPath],
                             disk = (case unlinkSync e fs tempPath of
                                       Some fs' \<Rightarrow> fs' | None \<Rightarrow> fs)\<rparr>))))"

subsection \<open>The zip-batch handler\<close>

record ('d, 'p) loop_state =
  ls_disk :: "'d files"
  ls_events :: "event list"
  ls_results :: "'p entry_result list"

definition tempPath_of :: "('r, 'd, 'p) env \<Rightarrow> string \<Rightarrow> string" where
  "tempPath_of e filename =
     (if APP_ENV e = Some ''development''
      then path_join e (cwd e) (''tmp_'' @ filename)
      else path_join e ''/tmp'' (''tmp_'' @ filename))"

text \<open>
  The loop over \<open>Object.entries(unzipped)\<close>. \<open>writeFileSync\<close> is outside the inner
  \<open>try\<close>: when it throws, the loop is left (\<open>Inl\<close>) for the handler's outer
  \<open>catch\<close>. A throwing parse and a throwing unlink are caught inside the loop.
\<close>

fun zip_loop ::
  "('r, 'd, 'p) env \<Rightarrow> (string \<times> 'd) list \<Rightarrow> ('d, 'p) loop_state
     \<Rightarrow> ('d, 'p) loop_state + ('d, 'p) loop_state" where
  "zip_loop e [] st = Inr st"
| "zip_loop e ((filename, data) # rest) st =
     (if \<not> endsWith filename ''.slp'' then zip_loop e rest st
      else
        (let tempPath = tempPath_of e filename
         in case writeFileSync e (ls_disk st) tempPath data of
              None \<Rightarrow> Inl (st\<lparr>ls_events := ls_events st @ [WriteFile tempPath]\<rparr>)
            | Some fs1 \<Rightarrow>
                (let r = (case parseSlippiReplay e fs1 tempPath of
                            Some parsed \<Rightarrow> Parsed filename parsed
                          | None \<Rightarrow> Failed filename ''Failed to parse'');
                     fs2 = (case unlinkSync e fs1 tempPath of
                              Some fs' \<Rightarrow> fs' | None \<Rightarrow> fs1)
                 in zip_loop e rest
                      \<lparr>ls_disk = fs2,
                       ls_events = ls_events st
                         @ [WriteFile tempPath, ParseReplay tempPath, Unlink tempPath],
                       ls_results = ls_results st @ [r]\<rparr>)))"

definition handler_zip ::
  "('r, 'd, 'p) env \<Rightarrow> 'd files \<Rightarrow> 'r request \<Rightarrow> ('d, 'p) outcome" where
  "handler_zip e fs0 req =
     (if req_method req \<noteq> ''POST'' then reply 405 ''Method not allowed'' [] fs0
      else
        (case form_parse e IncomingForm_options (multipart req) fs0 of
           Inl fs \<Rightarrow> reply 500 ''Error parsing form data'' [] fs
         | Inr (replayFile, fs) \<Rightarrow>
             (case replayFile of
                None \<Rightarrow> reply 400 ''No replay file uploaded'' [] fs
              | Some [] \<Rightarrow> reply 400 ''No replay file uploaded'' [] fs
              | Some (file # _) \<Rightarrow>
                  if falsy (originalFilename file)
                     \<or> \<not> endsWith (the (originalFilename file)) ''.zip''
                  then reply 400 ''Only .zip files are accepted'' [] fs
                  else
                    (case readFileSync fs (filepath file) of
                       None \<Rightarrow>
                         reply 500 ''Error parsing replay file'' [ReadFile (filepath file)] fs
                     | Some zipBuffer \<Rightarrow>
                         (case unzipFile e zipBuffer of
                            None \<Rightarrow>
                              reply 500 ''Error parsing replay file''
                                [ReadFile (filepath file)] fs
                          | Some unzipped \<Rightarrow>
                              (case zip_loop e unzipped
                                      \<lparr>ls_disk = fs, ls_events = [ReadFile (filepath file)],
                                       ls_results = []\<rparr> of
                                 Inl st \<Rightarrow>
                                   reply 500 ''Error parsing replay file''
                                     (ls_events st) (ls_disk st)
                               | Inr st \<Rightarrow>
                                   \<lparr>response =
                                      \<lparr>status = 200, json = Results (ls_results st)\<rparr>,
                                    events = ls_events st @ [Unlink (filepath file)],
                                    disk = (case unlinkSync e (ls_disk st) (filepath file) of
                                              Some fs' \<Rightarrow> fs' | None \<Rightarrow> ls_disk st)\<rparr>))))))"

subsection \<open>What the batch response should hold\<close>

text \<open>
  The archive entries that are replays, and the result the specification asks for each:
  \<open>{filename, parsed}\<close> when the parser succeeds on the entry's content and
  \<open>{filename, error: "Failed to parse"}\<close> when it throws.
\<close>

definition slp_entries :: "(string \<times> 'd) list \<Rightarrow> (string \<times> 'd) list" where
  "slp_entries entries = filter (\<lambda>(filename, data). endsWith filename ''.slp'') entries"

definition expected_result :: "('r, 'd, 'p) env \<Rightarrow> string \<times> 'd \<Rightarrow> 'p entry_result" where
  "expected_result e = (\<lambda>(filename, data).
     case SlippiGame e data of
       Some parsed \<Rightarrow> Parsed filename parsed
     | None \<Rightarrow> Failed filename ''Failed to parse'')"

definition entry_events :: "('r, 'd, 'p) env \<Rightarrow> string \<times> 'd \<Rightarrow> event list" where
  "entry_events e = (\<lambda>(filename, data).
     [WriteFile (tempPath_of e filename), ParseReplay (tempPath_of e filename),
      Unlink (tempPath_of e filename)])"

definition writes_succeed :: "('r, 'd, 'p) env \<Rightarrow> (string \<times> 'd) list \<Rightarrow> bool" where
  "writes_succeed e entries =
     list_all (\<lambda>(filename, data). write_ok e (tempPath_of e filename)) (slp_entries entries)"

text \<open>
  The replay entries whose temporary file gets written, that is those before the first
  entry whose write throws, and the entries from that one on.
\<close>

definition written_entries :: "('r, 'd, 'p) env \<Rightarrow> (string \<times> 'd) list \<Rightarrow> (string \<times> 'd) list"
  where
  "written_entries e entries =
     takeWhile (\<lambda>(filename, data). write_ok e (tempPath_of e filename)) (slp_entries entries)"

definition unwritten_entries ::
  "('r, 'd, 'p) env \<Rightarrow> (string \<times> 'd) list \<Rightarrow> (string \<times> 'd) list" where
  "unwritten_entries e entries =
     dropWhile (\<lambda>(filename, data). write_ok e (tempPath_of e filename)) (slp_entries entries)"

subsection \<open>A sample environment\<close>

text \<open>
  Used to run the handlers on concrete requests. An upload is \<open>None\<close> (no
  \<open>replayFile\<close> field) or a file name with its bytes; formidable stores it under
  \<open>/tmp/upload\<close> unless it is larger than \<open>maxFileSize\<close>. Two byte strings unzip:
  \<open>[80, 75]\<close> to two replays and a text file, \<open>[80, 75, 3]\<close> to a replay inside a
  directory, whose temporary path cannot be written because the directory does not exist,
  and \<open>[80, 75, 4]\<close> to a replay followed by such a replay inside a directory.
  A replay parses when its content is \<open>[2]\<close>.
\<close>

type_synonym upload = "(string option \<times> nat list) option"

definition upload_bytes :: "upload \<Rightarrow> nat" where
  "upload_bytes u = (case u of None \<Rightarrow> 0 | Some (n, c) \<Rightarrow> length c)"

definition sample_env :: "(upload, nat list, nat) env" where
  "sample_env =
     \<lparr>form_parse = (\<lambda>opts u fs.
         case u of
           None \<Rightarrow> Inr (None, fs)
         | Some (n, c) \<Rightarrow>
             if length c > maxFileSize opts then Inl fs
             else Inr (Some [\<lparr>originalFilename = n, filepath = ''/tmp/upload''\<rparr>],
                       fs(''/tmp/upload'' := Some c))),
      APP_ENV = None,
      cwd = ''/app'',
      path_join = (\<lambda>a b. a @ ''/'' @ b),
      unzipSync = (\<lambda>d.
         if d = [80, 75] then Some [(''a.slp'', [2]), (''readme.txt'', [9]), (''b.slp'', [5])]
         else if d = [80, 75, 3] then Some [(''dir/c.slp'', [2])]
         else if d = [80, 75, 4] then Some [(''a.slp'', [2]), (''dir/c.slp'', [2])]
         else None),
      SlippiGame = (\<lambda>d. if d = [2] then Some 7 else None),
      write_ok = (\<lambda>p. p \<noteq> ''/tmp/tmp_dir/c.slp''),
      unlink_ok = (\<lambda>p. True)\<rparr>"

definition no_files :: "nat list files" where
  "no_files = (\<lambda>p. None)"

definition post_upload :: "string \<Rightarrow> nat list \<Rightarrow> upload request" where
  "post_upload name bytes = \<lparr>req_method = ''POST'', multipart = Some (Some name, bytes)\<rparr>"

section \<open>File picker (FileUpload component)\<close>

text \<open>
  The sources hold two variants of the component. The one that declares
  \<open>MAX_FILES\<close> caps the selection in its state updaters; the one in
  src/components/FileUpload.tsx appends every valid file. A \<open>File\<close> is represented by
  its name, the only property the picker reads. An event carries the file list of
  \<open>e.dataTransfer.files\<close> or \<open>e.target.files\<close>, \<open>None\<close> when that is null. The
  state is the \<open>selectedFiles\<close> list together with the alerts shown so far.
\<close>

definition MAX_FILES :: nat where
  "MAX_FILES = 100"

record picker =
  selectedFiles :: "string list"
  alerts :: "string list"

datatype picker_event = Drop "string list option" | Change "string list option"

definition cap_alert :: string where
  "cap_alert = ''You can upload a maximum of 100 files. Only the first 100 will be used.''"

definition handleDrop :: "picker \<Rightarrow> string list option \<Rightarrow> picker" where
  "handleDrop st files =
     (case files of
        None \<Rightarrow> st
      | Some fl \<Rightarrow>
          (let validFiles = filter (\<lambda>name. endsWith name ''.slp'') fl
           in if length validFiles > 0
              then (let combined = selectedFiles st @ validFiles
                    in if length combined > MAX_FILES
                       then st\<lparr>selectedFiles := take MAX_FILES combined,
                               alerts := alerts st @ [cap_alert]\<rparr>
                       else st\<lparr>selectedFiles := combined\<rparr>)
              else st\<lparr>alerts := alerts st @ [''Please upload .slp files only'']\<rparr>))"

definition handleFileChange :: "picker \<Rightarrow> string list option \<Rightarrow> picker" where
  "handleFileChange st files =
     (case files of
        None \<Rightarrow> st
      | Some fl \<Rightarrow>
          (let validFiles = filter (\<lambda>name. endsWith name ''.slp'') fl
           in if length validFiles > 0
              then (let combined = selectedFiles st @ validFiles
                    in if length combined > MAX_FILES
                       then st\<lparr>selectedFiles := take MAX_FILES combined,
                               alerts := alerts st @ [cap_alert]\<rparr>
                       else st\<lparr>selectedFiles := take MAX_FILES combined\<rparr>)
              else st\<lparr>alerts := alerts st @ [''Please upload .slp files only'']\<rparr>))"

text \<open>\<open>handleSubmit\<close>: the list handed to \<open>onFileUpload\<close>, if any.\<close>

definition handleSubmit :: "picker \<Rightarrow> string list option" where
  "handleSubmit st = (if length (selectedFiles st) > 0 then Some (selectedFiles st) else None)"

definition picker_step :: "picker \<Rightarrow> picker_event \<Rightarrow> picker" where
  "picker_step st ev =
     (case ev of Drop files \<Rightarrow> handleDrop st files | Change files \<Rightarrow> handleFileChange st files)"

definition picker_init :: picker where
  "picker_init = \<lparr>selectedFiles = [], alerts = []\<rparr>"

definition picker_run :: "picker_event list \<Rightarrow> picker" where
  "picker_run evs = foldl picker_step picker_init evs"

text \<open>The files of an event that pass the \<open>.slp\<close> filter.\<close>

definition valid_files :: "picker_event \<Rightarrow> string list" where
  "valid_files ev =
     (case ev of
        Drop None \<Rightarrow> [] | Change None \<Rightarrow> []
      | Drop (Some fl) \<Rightarrow> filter (\<lambda>name. endsWith name ''.slp'') fl
      | Change (Some fl) \<Rightarrow> filter (\<lambda>name. endsWith name ''.slp'') fl)"

subsection \<open>The variant without a cap (src/components/FileUpload.tsx)\<close>

definition handleDrop_nocap :: "picker \<Rightarrow> string list option \<Rightarrow> picker" where
  "handleDrop_nocap st files =
     (case files of
        None \<Rightarrow> st
      | Some fl \<Rightarrow>
          (let validFiles = filter (\<lambda>name. endsWith name ''.slp'') fl
           in if length validFiles > 0
              then st\<lparr>selectedFiles := selectedFiles st @ validFiles\<rparr>
              else st\<lparr>alerts := alerts st @ [''Please upload .slp files only'']\<rparr>))"

definition handleFileChange_nocap :: "picker \<Rightarrow> string list option \<Rightarrow> picker" where
  "handleFileChange_nocap st files =
     (case files of
        None \<Rightarrow> st
      | Some fl \<Rightarrow>
          (let validFiles = filter (\<lambda>name. endsWith name ''.slp'') fl
           in if length validFiles > 0
              then st\<lparr>selectedFiles := selectedFiles st @ validFiles\<rparr>
              else st\<lparr>alerts := alerts st @ [''Please upload .slp files only'']\<rparr>))"

definition picker_step_nocap :: "picker \<Rightarrow> picker_event \<Rightarrow> picker" where
  "picker_step_nocap st ev =
     (case ev of
        Drop files \<Rightarrow> handleDrop_nocap st files
      | Change files \<Rightarrow> handleFileChange_nocap st files)"

definition picker_run_nocap :: "picker_event list \<Rightarrow> picker" where
  "picker_run_nocap evs = foldl picker_step_nocap picker_init evs"

section \<open>Replay data (ReplayDetails.tsx) and library functions\<close>

text \<open>
  The parts of \<open>ReplayData\<close> the aggregation components read. \<open>metadata.players\<close>
  is indexed by player index and may have no entry at an index. A \<open>playerIndex\<close> field
  exists in three of the source's object types; the record fields carry a prefix to keep
  them apart. Optional fields are \<open>None\<close> when \<open>undefined\<close> or \<open>null\<close>.
\<close>

record Player =
  code :: string

record SettingsPlayer =
  sp_playerIndex :: int
  sp_characterId :: "int option"

record RatioStat =
  ratio :: "number option"

record Overall =
  ov_playerIndex :: int
  damagePerOpening :: "RatioStat option"
  openingsPerKill :: "RatioStat option"
  inputsPerMinute :: "RatioStat option"
  totalDamage :: "number option"

record Stock =
  stk_playerIndex :: int

record ReplayData =
  metadata_players :: "int \<Rightarrow> Player option"
  settings_players :: "SettingsPlayer list"
  stats_overall :: "Overall list"
  stats_stocks :: "Stock list"

text \<open>
  Functions of slippi-js and of the JavaScript runtime that the components call:
  \<open>characters.getCharacterName\<close>, \<open>String.prototype.localeCompare\<close> and
  \<open>String(n)\<close> for a number.
\<close>

record lib =
  getCharacterName :: "int \<Rightarrow> string"
  localeCompare :: "string \<Rightarrow> string \<Rightarrow> int"
  numberToString :: "number \<Rightarrow> string"

text \<open>\<open>xs.findIndex(P)\<close>: the index of the first match, or \<open>-1\<close>.\<close>

fun findIndex :: "('a \<Rightarrow> bool) \<Rightarrow> 'a list \<Rightarrow> int" where
  "findIndex P [] = -1"
| "findIndex P (x # xs) =
     (if P x then 0 else (let i = findIndex P xs in if i = -1 then -1 else i + 1))"

text \<open>\<open>xs[i]\<close> for a number \<open>i\<close>: \<open>undefined\<close> out of range.\<close>

definition nth_opt :: "'a list \<Rightarrow> int \<Rightarrow> 'a option" where
  "nth_opt xs i = (if 0 \<le> i \<and> nat i < length xs then Some (xs ! nat i) else None)"

text \<open>
  \<open>xs.forEach(f)\<close> over a callback that updates an accumulator and may throw: the
  first exception ends the loop.
\<close>

fun forEach :: "('s \<Rightarrow> 'a \<Rightarrow> js_error + 's) \<Rightarrow> 'a list \<Rightarrow> 's \<Rightarrow> js_error + 's" where
  "forEach f [] s = Inr s"
| "forEach f (x # xs) s = (case f s x of Inl err \<Rightarrow> Inl err | Inr s' \<Rightarrow> forEach f xs s')"

text \<open>
  An object used as a dictionary is an association list in insertion order:
  \<open>obj[k] = v\<close> replaces the value of an existing key in place and appends a new key.
\<close>

fun obj_set :: "'k \<Rightarrow> 'v \<Rightarrow> ('k \<times> 'v) list \<Rightarrow> ('k \<times> 'v) list" where
  "obj_set k v [] = [(k, v)]"
| "obj_set k v ((k', v') # rest) =
     (if k' = k then (k, v) # rest else (k', v') # obj_set k v rest)"

text \<open>
  \<open>Object.values\<close> lists the values of array-index keys (the integers from 0 to
  \<open>2^32 - 2\<close>) first, in ascending order, and then those of the other keys in insertion
  order.
\<close>

definition is_array_index :: "int \<Rightarrow> bool" where
  "is_array_index k = (0 \<le> k \<and> k < 4294967295)"

definition object_values :: "(int \<times> 'v) list \<Rightarrow> 'v list" where
  "object_values m =
     map snd (sort_key fst (filter (\<lambda>(k, v). is_array_index k) m))
       @ map snd (filter (\<lambda>(k, v). \<not> is_array_index k) m)"

text \<open>
  \<open>stocks[stocks.length - 1]\<close> followed by the read of its \<open>playerIndex\<close>: on an
  empty list the element is \<open>undefined\<close> and the read throws.
\<close>

definition lastStock :: "Stock list \<Rightarrow> js_error + Stock" where
  "lastStock stocks =
     (if stocks = [] then Inl TypeError else Inr (stocks ! (length stocks - 1)))"

text \<open>\<open>x?.ratio\<close> as a condition: the ratio when it is a number other than 0 and \<open>NaN\<close>.\<close>

definition truthy_ratio :: "RatioStat option \<Rightarrow> number option" where
  "truthy_ratio x =
     (case x of
        None \<Rightarrow> None
      | Some r \<Rightarrow> (case ratio r of None \<Rightarrow> None | Some v \<Rightarrow> if truthy v then Some v else None))"

datatype js_value = Num number | Str string

datatype sort_dir = Asc | Desc

text \<open>The comparator both tables pass to \<open>sort\<close>, on the two cells of the sort column.\<close>

definition js_String :: "lib \<Rightarrow> js_value \<Rightarrow> string" where
  "js_String l v = (case v of Str s \<Rightarrow> s | Num n \<Rightarrow> numberToString l n)"

definition compare_cells :: "lib \<Rightarrow> sort_dir \<Rightarrow> js_value \<Rightarrow> js_value \<Rightarrow> number" where
  "compare_cells l sortDir aValue bValue =
     (case (aValue, bValue) of
        (Num a, Num b) \<Rightarrow> (if sortDir = Asc then js_sub a b else js_sub b a)
      | _ \<Rightarrow>
          (if sortDir = Asc
           then Fin (of_int (localeCompare l (js_String l aValue) (js_String l bValue)))
           else Fin (of_int (localeCompare l (js_String l bValue) (js_String l aValue)))))"


section \<open>Character Breakdown (src/components/CharacterBreakdown.tsx)\<close>

text \<open>
  An entry of \<open>statsMap\<close> and a row of the table. The four counters, which start at 0
  and only ever grow by 1, are natural numbers: doubles count exactly up to \<open>2\<^sup>5\<^sup>3\<close>.
  The three totals are sums of ratios and are doubles.
\<close>

record CharAcc =
  ca_characterId :: int
  ca_totalGames :: nat
  ca_wins :: nat
  ca_losses :: nat
  ca_totalDamagePerOpening :: number
  ca_openingsCount :: nat
  ca_openingsPerKillTotal :: number
  ca_killsCount :: nat
  ca_inputsPerMinuteTotal :: number

record CharacterStats =
  cs_characterId :: int
  cs_characterName :: string
  cs_totalGames :: nat
  cs_wins :: nat
  cs_losses :: nat
  cs_winRate :: number
  cs_averageDamagePerOpening :: number
  cs_averageOpeningsPerKill :: number
  cs_averageInputsPerMinute :: number

datatype cs_column =
  CS_characterId | CS_characterName | CS_totalGames | CS_wins | CS_losses | CS_winRate
  | CS_averageDamagePerOpening | CS_averageOpeningsPerKill | CS_averageInputsPerMinute

definition ca_new :: "int \<Rightarrow> CharAcc" where
  "ca_new characterId =
     \<lparr>ca_characterId = characterId, ca_totalGames = 0, ca_wins = 0, ca_losses = 0,
      ca_totalDamagePerOpening = Fin 0, ca_openingsCount = 0, ca_openingsPerKillTotal = Fin 0,
      ca_killsCount = 0, ca_inputsPerMinuteTotal = Fin 0\<rparr>"

text \<open>The updates of one game to the entry of a character.\<close>

definition ca_update :: "Overall \<Rightarrow> bool \<Rightarrow> CharAcc \<Rightarrow> CharAcc" where
  "ca_update playerStats isWinner acc =
     (let a1 = acc\<lparr>ca_totalGames := ca_totalGames acc + 1\<rparr>;
          a2 = (if isWinner then a1\<lparr>ca_wins := ca_wins a1 + 1\<rparr>
                else a1\<lparr>ca_losses := ca_losses a1 + 1\<rparr>);
          a3 = (case truthy_ratio (damagePerOpening playerStats) of
                  Some r \<Rightarrow> a2\<lparr>ca_totalDamagePerOpening := js_add (ca_totalDamagePerOpening a2) r,
                                ca_openingsCount := ca_openingsCount a2 + 1\<rparr>
                | None \<Rightarrow> a2);
          a4 = (case truthy_ratio (openingsPerKill playerStats) of
                  Some r \<Rightarrow> a3\<lparr>ca_openingsPerKillTotal := js_add (ca_openingsPerKillTotal a3) r,
                                ca_killsCount := ca_killsCount a3 + 1\<rparr>
                | None \<Rightarrow> a3)
      in (case truthy_ratio (inputsPerMinute playerStats) of
            Some r \<Rightarrow> a4\<lparr>ca_inputsPerMinuteTotal := js_add (ca_inputsPerMinuteTotal a4) r\<rparr>
          | None \<Rightarrow> a4))"

text \<open>The callback of \<open>playerIndices.forEach\<close>.\<close>

definition cb_player ::
  "ReplayData \<Rightarrow> (int \<times> CharAcc) list \<Rightarrow> int \<Rightarrow> js_error + (int \<times> CharAcc) list" where
  "cb_player replay statsMap playerIndex =
     (if playerIndex = -1 then Inr statsMap
      else
        (case find (\<lambda>p. sp_playerIndex p = playerIndex) (settings_players replay) of
           None \<Rightarrow> Inr statsMap
         | Some p \<Rightarrow>
             (case sp_characterId p of
                None \<Rightarrow> Inr statsMap
              | Some characterId \<Rightarrow>
                  (let acc = (case map_of statsMap characterId of
                                None \<Rightarrow> ca_new characterId | Some a \<Rightarrow> a);
                       statsMap1 = (if map_of statsMap characterId = None
                                    then obj_set characterId acc statsMap else statsMap)
                   in case find (\<lambda>p. ov_playerIndex p = playerIndex) (stats_overall replay) of
                        None \<Rightarrow> Inr statsMap1
                      | Some playerStats \<Rightarrow>
                          (case lastStock (stats_stocks replay) of
                             Inl err \<Rightarrow> Inl err
                           | Inr lastSt \<Rightarrow>
                               (let isWinner = (stk_playerIndex lastSt \<noteq> playerIndex)
                                in Inr (obj_set characterId
                                          (ca_update playerStats isWinner acc)
                                          statsMap1)))))))"

text \<open>The callback of \<open>replayDataList.forEach\<close>.\<close>

definition cb_replay ::
  "string option \<Rightarrow> (int \<times> CharAcc) list \<Rightarrow> ReplayData \<Rightarrow> js_error + (int \<times> CharAcc) list"
  where
  "cb_replay selectedPlayer statsMap replay =
     (let selectedPlayerIndex =
            (if \<not> falsy selectedPlayer
             then findIndex
                    (\<lambda>p. map_option code (metadata_players replay (sp_playerIndex p))
                            = selectedPlayer)
                    (settings_players replay)
             else -1)
      in if selectedPlayer = None \<or> selectedPlayerIndex \<noteq> -1
         then (let playerIndices =
                     (if \<not> falsy selectedPlayer then [selectedPlayerIndex]
                      else map sp_playerIndex (settings_players replay))
               in forEach (cb_player replay) playerIndices statsMap)
         else Inr statsMap)"

definition cs_row :: "lib \<Rightarrow> CharAcc \<Rightarrow> CharacterStats" where
  "cs_row l stats =
     \<lparr>cs_characterId = ca_characterId stats,
      cs_characterName = getCharacterName l (ca_characterId stats),
      cs_totalGames = ca_totalGames stats,
      cs_wins = ca_wins stats,
      cs_losses = ca_losses stats,
      cs_winRate =
        (if ca_totalGames stats > 0
         then js_mul (js_div (Fin (of_nat (ca_wins stats))) (Fin (of_nat (ca_totalGames stats))))
                (Fin 100)
         else Fin 0),
      cs_averageDamagePerOpening =
        (if ca_openingsCount stats > 0
         then js_div (ca_totalDamagePerOpening stats) (Fin (of_nat (ca_openingsCount stats)))
         else Fin 0),
      cs_averageOpeningsPerKill =
        (if ca_killsCount stats > 0
         then js_div (ca_openingsPerKillTotal stats) (Fin (of_nat (ca_killsCount stats)))
         else Fin 0),
      cs_averageInputsPerMinute =
        (if ca_totalGames stats > 0
         then js_div (ca_inputsPerMinuteTotal stats) (Fin (of_nat (ca_totalGames stats)))
         else Fin 0)\<rparr>"

text \<open>\<open>a[sortBy]\<close> for a row \<open>a\<close>.\<close>

fun cs_cell :: "cs_column \<Rightarrow> CharacterStats \<Rightarrow> js_value" where
  "cs_cell CS_characterId r = Num (Fin (of_int (cs_characterId r)))"
| "cs_cell CS_characterName r = Str (cs_characterName r)"
| "cs_cell CS_totalGames r = Num (Fin (of_nat (cs_totalGames r)))"
| "cs_cell CS_wins r = Num (Fin (of_nat (cs_wins r)))"
| "cs_cell CS_losses r = Num (Fin (of_nat (cs_losses r)))"
| "cs_cell CS_winRate r = Num (cs_winRate r)"
| "cs_cell CS_averageDamagePerOpening r = Num (cs_averageDamagePerOpening r)"
| "cs_cell CS_averageOpeningsPerKill r = Num (cs_averageOpeningsPerKill r)"
| "cs_cell CS_averageInputsPerMinute r = Num (cs_averageInputsPerMinute r)"

text \<open>
  The effect: \<open>Inr None\<close> when it returns at once without setting the state,
  \<open>Inr (Some rows)\<close> for the rows it passes to \<open>setCharacterStats\<close>, \<open>Inl\<close> when
  it throws. The sort state starts as \<open>totalGames\<close>, \<open>desc\<close>.
\<close>

definition cs_statsMap :: "ReplayData list \<Rightarrow> string option \<Rightarrow> js_error + (int \<times> CharAcc) list"
  where
  "cs_statsMap replayDataList selectedPlayer =
     forEach (cb_replay selectedPlayer) replayDataList []"

definition characterBreakdown ::
  "lib \<Rightarrow> ReplayData list \<Rightarrow> string option \<Rightarrow> cs_column \<Rightarrow> sort_dir
     \<Rightarrow> js_error + CharacterStats list option" where
  "characterBreakdown l replayDataList selectedPlayer sortBy sortDir =
     (if length replayDataList = 0 then Inr None
      else
        (case cs_statsMap replayDataList selectedPlayer of
           Inl err \<Rightarrow> Inl err
         | Inr statsMap \<Rightarrow>
             (let characterStatsArray = map (cs_row l) (object_values statsMap);
                  sortedStats =
                    array_sort
                      (\<lambda>a b. compare_cells l sortDir (cs_cell sortBy a) (cs_cell sortBy b))
                      characterStatsArray
              in Inr (Some sortedStats))))"



section \<open>Matchup Analysis (MatchupAnalysis component)\<close>

record MatchAcc =
  ma_characterId :: int
  ma_opponentCharacterId :: int
  ma_totalGames :: nat
  ma_wins :: nat
  ma_losses :: nat
  ma_totalDamageDealt :: number
  ma_totalDamageTaken :: number

record MatchupStats =
  ms_characterId :: int
  ms_characterName :: string
  ms_opponentCharacterId :: int
  ms_opponentCharacterName :: string
  ms_totalGames :: nat
  ms_wins :: nat
  ms_losses :: nat
  ms_winRate :: number
  ms_averageDamageDealt :: number
  ms_averageDamageTaken :: number
  ms_damageRatio :: number

datatype ms_column =
  MS_characterId | MS_characterName | MS_opponentCharacterId | MS_opponentCharacterName
  | MS_totalGames | MS_wins | MS_losses | MS_winRate | MS_averageDamageDealt
  | MS_averageDamageTaken | MS_damageRatio

definition ma_new :: "int \<Rightarrow> int \<Rightarrow> MatchAcc" where
  "ma_new playerCharacterId opponentCharacterId =
     \<lparr>ma_characterId = playerCharacterId, ma_opponentCharacterId = opponentCharacterId,
      ma_totalGames = 0, ma_wins = 0, ma_losses = 0,
      ma_totalDamageDealt = Fin 0, ma_totalDamageTaken = Fin 0\<rparr>"

text \<open>\<open>x.totalDamage || 0\<close>\<close>

definition damage_or_0 :: "Overall \<Rightarrow> number" where
  "damage_or_0 x =
     (case totalDamage x of None \<Rightarrow> Fin 0 | Some d \<Rightarrow> if truthy d then d else Fin 0)"

definition ma_update :: "Overall \<Rightarrow> Overall \<Rightarrow> bool \<Rightarrow> MatchAcc \<Rightarrow> MatchAcc" where
  "ma_update playerStats opponentStats isWinner acc =
     (let a1 = acc\<lparr>ma_totalGames := ma_totalGames acc + 1\<rparr>;
          a2 = (if isWinner then a1\<lparr>ma_wins := ma_wins a1 + 1\<rparr>
                else a1\<lparr>ma_losses := ma_losses a1 + 1\<rparr>)
      in a2\<lparr>ma_totalDamageDealt := js_add (ma_totalDamageDealt a2) (damage_or_0 playerStats),
             ma_totalDamageTaken :=
               js_add (ma_totalDamageTaken a2) (damage_or_0 opponentStats)\<rparr>)"

text \<open>
  \<open>players.find(p => p.names.code === selectedPlayer)\<close> over
  \<open>[metadata.players[0], metadata.players[1]]\<close>, followed by \<open>indexOf\<close>: the read
  of \<open>names\<close> throws on an entry that is \<open>undefined\<close>.
\<close>

definition find_selected :: "ReplayData \<Rightarrow> string \<Rightarrow> js_error + int option" where
  "find_selected replay sel =
     (case metadata_players replay 0 of
        None \<Rightarrow> Inl TypeError
      | Some p0 \<Rightarrow>
          if code p0 = sel then Inr (Some 0)
          else (case metadata_players replay 1 of
                  None \<Rightarrow> Inl TypeError
                | Some p1 \<Rightarrow> if code p1 = sel then Inr (Some 1) else Inr None))"

text \<open>
  The first part of the \<open>forEach\<close> callback: the player and opponent indices, or
  \<open>None\<close> where the callback returns early.
\<close>

definition ma_indices ::
  "string option \<Rightarrow> int option \<Rightarrow> ReplayData \<Rightarrow> js_error + (int \<times> int) option" where
  "ma_indices selectedPlayer selectedCharacter replay =
     (if \<not> falsy selectedPlayer
      then (case find_selected replay (the selectedPlayer) of
              Inl err \<Rightarrow> Inl err
            | Inr None \<Rightarrow> Inr None
            | Inr (Some playerIndex) \<Rightarrow>
                Inr (Some (playerIndex, if playerIndex = 0 then 1 else 0)))
      else if selectedCharacter \<noteq> None
      then (let playerWithCharacter =
                  findIndex (\<lambda>p. sp_characterId p = selectedCharacter) (settings_players replay)
            in if playerWithCharacter = -1 then Inr None
               else Inr (Some (playerWithCharacter, if playerWithCharacter = 0 then 1 else 0)))
      else Inr None)"

definition ma_replay ::
  "string option \<Rightarrow> int option \<Rightarrow> ((int \<times> int) \<times> MatchAcc) list \<Rightarrow> ReplayData
     \<Rightarrow> js_error + ((int \<times> int) \<times> MatchAcc) list" where
  "ma_replay selectedPlayer selectedCharacter statsMap replay =
     (if length (settings_players replay) \<noteq> 2 then Inr statsMap
      else
        (case ma_indices selectedPlayer selectedCharacter replay of
           Inl err \<Rightarrow> Inl err
         | Inr None \<Rightarrow> Inr statsMap
         | Inr (Some (playerIndex, opponentIndex)) \<Rightarrow>
             (case (Option.bind (nth_opt (settings_players replay) playerIndex) sp_characterId,
                    Option.bind (nth_opt (settings_players replay) opponentIndex) sp_characterId)
              of
                (Some playerCharacterId, Some opponentCharacterId) \<Rightarrow>
                  if selectedCharacter \<noteq> None \<and> Some playerCharacterId \<noteq> selectedCharacter
                  then Inr statsMap
                  else
                    (let matchupKey = (playerCharacterId, opponentCharacterId);
                         acc = (case map_of statsMap matchupKey of
                                  None \<Rightarrow> ma_new playerCharacterId opponentCharacterId
                                | Some a \<Rightarrow> a);
                         statsMap1 = (if map_of statsMap matchupKey = None
                                      then obj_set matchupKey acc statsMap else statsMap)
                     in case (find (\<lambda>p. ov_playerIndex p = playerIndex) (stats_overall replay),
                              find (\<lambda>p. ov_playerIndex p = opponentIndex) (stats_overall replay))
                        of
                          (Some playerStats, Some opponentStats) \<Rightarrow>
                            (case lastStock (stats_stocks replay) of
                               Inl err \<Rightarrow> Inl err
                             | Inr lastSt \<Rightarrow>
                                 (let isWinner = (stk_playerIndex lastSt \<noteq> playerIndex)
                                  in Inr (obj_set matchupKey
                                            (ma_update playerStats opponentStats isWinner acc)
                                            statsMap1)))
                        | _ \<Rightarrow> Inr statsMap1)
              | _ \<Rightarrow> Inr statsMap)))"

definition ms_row :: "lib \<Rightarrow> MatchAcc \<Rightarrow> MatchupStats" where
  "ms_row l stats =
     \<lparr>ms_characterId = ma_characterId stats,
      ms_characterName = getCharacterName l (ma_characterId stats),
      ms_opponentCharacterId = ma_opponentCharacterId stats,
      ms_opponentCharacterName = getCharacterName l (ma_opponentCharacterId stats),
      ms_totalGames = ma_totalGames stats,
      ms_wins = ma_wins stats,
      ms_losses = ma_losses stats,
      ms_winRate =
        (if ma_totalGames stats > 0
         then js_mul (js_div (Fin (of_nat (ma_wins stats))) (Fin (of_nat (ma_totalGames stats))))
                (Fin 100)
         else Fin 0),
      ms_averageDamageDealt =
        (if ma_totalGames stats > 0
         then js_div (ma_totalDamageDealt stats) (Fin (of_nat (ma_totalGames stats)))
         else Fin 0),
      ms_averageDamageTaken =
        (if ma_totalGames stats > 0
         then js_div (ma_totalDamageTaken stats) (Fin (of_nat (ma_totalGames stats)))
         else Fin 0),
      ms_damageRatio =
        (if js_gt (ma_totalDamageTaken stats) (Fin 0)
         then js_div (ma_totalDamageDealt stats) (ma_totalDamageTaken stats)
         else Fin 0)\<rparr>"

fun ms_cell :: "ms_column \<Rightarrow> MatchupStats \<Rightarrow> js_value" where
  "ms_cell MS_characterId r = Num (Fin (of_int (ms_characterId r)))"
| "ms_cell MS_characterName r = Str (ms_characterName r)"
| "ms_cell MS_opponentCharacterId r = Num (Fin (of_int (ms_opponentCharacterId r)))"
| "ms_cell MS_opponentCharacterName r = Str (ms_opponentCharacterName r)"
| "ms_cell MS_totalGames r = Num (Fin (of_nat (ms_totalGames r)))"
| "ms_cell MS_wins r = Num (Fin (of_nat (ms_wins r)))"
| "ms_cell MS_losses r = Num (Fin (of_nat (ms_losses r)))"
| "ms_cell MS_winRate r = Num (ms_winRate r)"
| "ms_cell MS_averageDamageDealt r = Num (ms_averageDamageDealt r)"
| "ms_cell MS_averageDamageTaken r = Num (ms_averageDamageTaken r)"
| "ms_cell MS_damageRatio r = Num (ms_damageRatio r)"

text \<open>
  The keys of this \<open>statsMap\<close> are the strings \<open>a-b\<close> for two character ids, which
  are never array indices: \<open>Object.values\<close> keeps insertion order. The key is modelled
  as the pair \<open>(a, b)\<close>.
\<close>

definition ms_statsMap ::
  "ReplayData list \<Rightarrow> string option \<Rightarrow> int option
     \<Rightarrow> js_error + ((int \<times> int) \<times> MatchAcc) list" where
  "ms_statsMap replayDataList selectedPlayer selectedCharacter =
     forEach (ma_replay selectedPlayer selectedCharacter) replayDataList []"

definition matchupAnalysis ::
  "lib \<Rightarrow> ReplayData list \<Rightarrow> string option \<Rightarrow> int option \<Rightarrow> ms_column \<Rightarrow> sort_dir
     \<Rightarrow> js_error + MatchupStats list option" where
  "matchupAnalysis l replayDataList selectedPlayer selectedCharacter sortBy sortDir =
     (if length replayDataList = 0 then Inr None
      else
        (case ms_statsMap replayDataList selectedPlayer selectedCharacter of
           Inl err \<Rightarrow> Inl err
         | Inr statsMap \<Rightarrow>
             (let matchupStatsArray = map (ms_row l) (map snd statsMap);
                  sortedStats =
                    array_sort
                      (\<lambda>a b. compare_cells l sortDir (ms_cell sortBy a) (ms_cell sortBy b))
                      matchupStatsArray
              in Inr (Some sortedStats))))"


section \<open>Replay Data Summary: winner and loser of a game\<close>

text \<open>
  The first lines of the \<open>filteredData.forEach\<close> callback of the summary component:
  \<open>winnerIndex\<close> is the \<open>playerIndex\<close> of the last stock, \<open>winner\<close> the first
  entry of \<open>stats.overall\<close> with that index and \<open>loser\<close> the first entry with another.
\<close>

definition summary_winner_loser :: "ReplayData \<Rightarrow> js_error + (Overall option \<times> Overall option)"
  where
  "summary_winner_loser replay =
     (let playerData = stats_overall replay
      in case lastStock (stats_stocks replay) of
           Inl err \<Rightarrow> Inl err
         | Inr lastSt \<Rightarrow>
             (let winnerIndex = stk_playerIndex lastSt
              in Inr (find (\<lambda>p. ov_playerIndex p = winnerIndex) playerData,
                      find (\<lambda>p. ov_playerIndex p \<noteq> winnerIndex) playerData)))"

subsection \<open>Sample replays\<close>

text \<open>
  A two-player game whose last stock belongs to player 1: player 0 plays character 2,
  player 1 plays character 9.
\<close>

definition overall0 :: Overall where
  "overall0 = \<lparr>ov_playerIndex = 0, damagePerOpening = Some \<lparr>ratio = Some (Fin 12)\<rparr>,
     openingsPerKill = Some \<lparr>ratio = Some (Fin 3)\<rparr>,
     inputsPerMinute = Some \<lparr>ratio = Some (Fin 300)\<rparr>,
     totalDamage = Some (Fin 400)\<rparr>"

definition overall1 :: Overall where
  "overall1 = \<lparr>ov_playerIndex = 1, damagePerOpening = Some \<lparr>ratio = Some (Fin 8)\<rparr>,
     openingsPerKill = Some \<lparr>ratio = None\<rparr>,
     inputsPerMinute = Some \<lparr>ratio = Some (Fin 250)\<rparr>,
     totalDamage = Some (Fin 200)\<rparr>"

definition sample_replay :: ReplayData where
  "sample_replay =
     \<lparr>metadata_players = (\<lambda>i. if i = 0 then Some \<lparr>code = ''AAA#1''\<rparr>
                              else if i = 1 then Some \<lparr>code = ''BBB#2''\<rparr> else None),
      settings_players = [\<lparr>sp_playerIndex = 0, sp_characterId = Some 2\<rparr>,
                          \<lparr>sp_playerIndex = 1, sp_characterId = Some 9\<rparr>],
      stats_overall = [overall0, overall1],
      stats_stocks = [\<lparr>stk_playerIndex = 0\<rparr>, \<lparr>stk_playerIndex = 1\<rparr>]\<rparr>"

definition sample_lib :: lib where
  "sample_lib =
     \<lparr>getCharacterName = (\<lambda>i. if i = 2 then ''Fox'' else if i = 9 then ''Marth'' else ''Unknown''),
      localeCompare = (\<lambda>s t. int (length s) - int (length t)),
      numberToString = (\<lambda>n. ''n'')\<rparr>"

text \<open>The rows the components produce for it.\<close>

definition fox_row :: CharacterStats where
  "fox_row = \<lparr>cs_characterId = 2, cs_characterName = ''Fox'', cs_totalGames = 1,
     cs_wins = 1, cs_losses = 0, cs_winRate = Fin 100, cs_averageDamagePerOpening = Fin 12,
     cs_averageOpeningsPerKill = Fin 3, cs_averageInputsPerMinute = Fin 300\<rparr>"

definition marth_row :: CharacterStats where
  "marth_row = \<lparr>cs_characterId = 9, cs_characterName = ''Marth'', cs_totalGames = 1,
     cs_wins = 0, cs_losses = 1, cs_winRate = Fin 0, cs_averageDamagePerOpening = Fin 8,
     cs_averageOpeningsPerKill = Fin 0, cs_averageInputsPerMinute = Fin 250\<rparr>"

definition fox_marth_row :: MatchupStats where
  "fox_marth_row = \<lparr>ms_characterId = 2, ms_characterName = ''Fox'',
     ms_opponentCharacterId = 9, ms_opponentCharacterName = ''Marth'',
     ms_totalGames = 1, ms_wins = 1, ms_losses = 0, ms_winRate = Fin 100,
     ms_averageDamageDealt = Fin 400, ms_averageDamageTaken = Fin 200,
     ms_damageRatio = Fin 2\<rparr>"

text \<open>
  The return game, whose last stock belongs to player 0; the openings-per-kill ratio of
  player 0 is 0. And a game between characters 2 and 20 that has no entry in
  \<open>stats.overall\<close>.
\<close>

definition overall0b :: Overall where
  "overall0b = \<lparr>ov_playerIndex = 0, damagePerOpening = Some \<lparr>ratio = Some (Fin 6)\<rparr>,
     openingsPerKill = Some \<lparr>ratio = Some (Fin 0)\<rparr>,
     inputsPerMinute = Some \<lparr>ratio = Some (Fin 150)\<rparr>,
     totalDamage = Some (Fin 100)\<rparr>"

definition overall1b :: Overall where
  "overall1b = \<lparr>ov_playerIndex = 1, damagePerOpening = Some \<lparr>ratio = Some (Fin 12)\<rparr>,
     openingsPerKill = Some \<lparr>ratio = Some (Fin 2)\<rparr>,
     inputsPerMinute = Some \<lparr>ratio = Some (Fin 210)\<rparr>,
     totalDamage = Some (Fin 300)\<rparr>"

definition return_replay :: ReplayData where
  "return_replay =
     sample_replay\<lparr>stats_overall := [overall0b, overall1b],
                    stats_stocks := [\<lparr>stk_playerIndex = 1\<rparr>, \<lparr>stk_playerIndex = 0\<rparr>]\<rparr>"

definition nostats_replay :: ReplayData where
  "nostats_replay =
     sample_replay\<lparr>settings_players := [\<lparr>sp_playerIndex = 0, sp_characterId = Some 2\<rparr>,
                                         \<lparr>sp_playerIndex = 1, sp_characterId = Some 20\<rparr>],
                    stats_overall := [], stats_stocks := []\<rparr>"




definition fox_row2 :: CharacterStats where
  "fox_row2 = \<lparr>cs_characterId = 2, cs_characterName = ''Fox'', cs_totalGames = 2,
     cs_wins = 1, cs_losses = 1, cs_winRate = Fin 50, cs_averageDamagePerOpening = Fin 9,
     cs_averageOpeningsPerKill = Fin 3, cs_averageInputsPerMinute = Fin 225\<rparr>"

definition marth_row2 :: CharacterStats where
  "marth_row2 = \<lparr>cs_characterId = 9, cs_characterName = ''Marth'', cs_totalGames = 2,
     cs_wins = 1, cs_losses = 1, cs_winRate = Fin 50, cs_averageDamagePerOpening = Fin 10,
     cs_averageOpeningsPerKill = Fin 2, cs_averageInputsPerMinute = Fin 230\<rparr>"

definition unknown_row :: CharacterStats where
  "unknown_row = \<lparr>cs_characterId = 20, cs_characterName = ''Unknown'', cs_totalGames = 0,
     cs_wins = 0, cs_losses = 0, cs_winRate = Fin 0, cs_averageDamagePerOpening = Fin 0,
     cs_averageOpeningsPerKill = Fin 0, cs_averageInputsPerMinute = Fin 0\<rparr>"

definition fox_marth_row2 :: MatchupStats where
  "fox_marth_row2 = \<lparr>ms_characterId = 2, ms_characterName = ''Fox'',
     ms_opponentCharacterId = 9, ms_opponentCharacterName = ''Marth'',
     ms_totalGames = 2, ms_wins = 1, ms_losses = 1, ms_winRate = Fin 50,
     ms_averageDamageDealt = Fin 250, ms_averageDamageTaken = Fin 250,
     ms_damageRatio = Fin 1\<rparr>"

definition fox_unknown_row :: MatchupStats where
  "fox_unknown_row = \<lparr>ms_characterId = 2, ms_characterName = ''Fox'',
     ms_opponentCharacterId = 20, ms_opponentCharacterName = ''Unknown'',
     ms_totalGames = 0, ms_wins = 0, ms_losses = 0, ms_winRate = Fin 0,
     ms_averageDamageDealt = Fin 0, ms_averageDamageTaken = Fin 0,
     ms_damageRatio = Fin 0\<rparr>"

definition fox_row3 :: CharacterStats where
  "fox_row3 = \<lparr>cs_characterId = 2, cs_characterName = ''Fox'', cs_totalGames = 3,
     cs_wins = 1, cs_losses = 2, cs_winRate = Fin (4691249611844266 / 2 ^ 47),
     cs_averageDamagePerOpening = Fin 8, cs_averageOpeningsPerKill = Fin 3,
     cs_averageInputsPerMinute = Fin 200\<rparr>"

section \<open>Properties of the built-ins\<close>

subsection \<open>Strings\<close>

lemma endsWith_append: "endsWith (pre @ suf) suf"
  by (simp add: endsWith_def)

lemma endsWith_iff: "endsWith s suf \<longleftrightarrow> (\<exists>pre. s = pre @ suf)"
proof
  assume e: "endsWith s suf"
  then have "s = take (length s - length suf) s @ suf"
    by (metis append_take_drop_id endsWith_def)
  then show "\<exists>pre. s = pre @ suf" ..
next
  assume "\<exists>pre. s = pre @ suf"
  then show "endsWith s suf" by (auto simp: endsWith_def)
qed

subsection \<open>Rounding to a double\<close>

lemma round_even_unique:
  assumes "\<bar>q - of_int m\<bar> < 1 / 2 \<or> (\<bar>q - of_int m\<bar> = 1 / 2 \<and> even m)"
  shows "round_even q = m"
proof -
  let ?f = "\<lfloor>q\<rfloor>"
  have f1: "of_int ?f \<le> q" and f2: "q < of_int ?f + 1" by linarith+
  have cases: "m = ?f \<or> m = ?f + 1"
  proof -
    from assms have "\<bar>q - of_int m\<bar> \<le> 1 / 2" by auto
    then have "of_int m \<le> q + 1 / 2" "q - 1 / 2 \<le> of_int m" by linarith+
    with f1 f2 have "of_int m < (of_int ?f :: rat) + 2" "(of_int ?f :: rat) - 1 < of_int m"
      by linarith+
    then have "of_int m < (of_int (?f + 2) :: rat)" "(of_int (?f - 1) :: rat) < of_int m"
      by simp_all
    then have "m < ?f + 2" "?f - 1 < m" by (simp_all only: of_int_less_iff)
    then show ?thesis by linarith
  qed
  show ?thesis
  proof (cases "m = ?f")
    case True
    with assms have d: "q - of_int ?f < 1 / 2 \<or> (q - of_int ?f = 1 / 2 \<and> even ?f)"
      using f1 by auto
    then show ?thesis using True by (auto simp: round_even_def Let_def)
  next
    case False
    with cases have m: "m = ?f + 1" by simp
    with assms have d: "1 / 2 < q - of_int ?f \<or> (q - of_int ?f = 1 / 2 \<and> odd ?f)"
      using f2 by auto
    then show ?thesis using m by (auto simp: round_even_def Let_def)
  qed
qed




lemma ilog2_bounds:
  assumes "0 < q"
  shows "2 powi (ilog2 q) \<le> q" and "q < 2 powi (ilog2 q + 1)"
proof -
  have "2 powi (ilog2 q) \<le> q \<and> q < 2 powi (ilog2 q + 1)"
  proof (cases "1 \<le> q")
    case True
    let ?t = "\<lfloor>q\<rfloor>"
    from True have t: "0 < ?t" by simp
    from bitlen_bounds [OF t] have b1: "2 ^ nat (bitlen ?t - 1) \<le> ?t" and b2: "?t < 2 ^ nat (bitlen ?t)"
      by simp_all
    from t have bl: "1 \<le> bitlen ?t" by (auto simp: bitlen_alt_def)
    have "(2::rat) powi (bitlen ?t - 1) = of_int (2 ^ nat (bitlen ?t - 1))"
      using bl by (simp add: power_int_def)
    also have "\<dots> \<le> of_int ?t" using b1 by (simp only: of_int_le_iff)
    also have "\<dots> \<le> q" by simp
    finally have lo: "(2::rat) powi (bitlen ?t - 1) \<le> q" .
    have "?t + 1 \<le> 2 ^ nat (bitlen ?t)" using b2 by simp
    then have "(of_int (?t + 1) :: rat) \<le> of_int (2 ^ nat (bitlen ?t))" by (simp only: of_int_le_iff)
    moreover have "q < of_int (?t + 1)" by simp linarith
    moreover have "(of_int (2 ^ nat (bitlen ?t)) :: rat) = 2 powi (bitlen ?t)"
      using bl by (simp add: power_int_def)
    ultimately have hi: "q < 2 powi (bitlen ?t)" by simp
    from True lo hi show ?thesis by (simp add: ilog2_def)
  next
    case False
    with assms have q1: "q < 1" by simp
    let ?t = "\<lfloor>1 / q\<rfloor>"
    from assms q1 have "1 < 1 / q" by simp
    then have t: "0 < ?t" by simp
    let ?b = "bitlen ?t"
    from bitlen_bounds [OF t] have b1: "2 ^ nat (?b - 1) \<le> ?t" and b2: "?t < 2 ^ nat ?b"
      by simp_all
    from t have bl: "1 \<le> ?b" by (auto simp: bitlen_alt_def)
    have p1: "(2::rat) powi (?b - 1) = of_int (2 ^ nat (?b - 1))"
      using bl by (simp add: power_int_def)
    have p2: "(of_int (2 ^ nat ?b) :: rat) = 2 powi ?b"
      using bl by (simp add: power_int_def)
    have "(2::rat) powi (?b - 1) \<le> of_int ?t" unfolding p1 using b1 by (simp only: of_int_le_iff)
    also have "\<dots> \<le> 1 / q" by simp
    finally have A: "(2::rat) powi (?b - 1) \<le> 1 / q" .
    have "?t + 1 \<le> 2 ^ nat ?b" using b2 by simp
    then have "(of_int (?t + 1) :: rat) \<le> of_int (2 ^ nat ?b)" by (simp only: of_int_le_iff)
    moreover have "1 / q < of_int (?t + 1)" by simp linarith
    ultimately have B: "1 / q < 2 powi ?b" using p2 by simp
    have pos: "(0::rat) < 2 powi n" for n by simp
    have inv_le: "x \<le> 1 / P" if "0 < x" "0 < P" "P \<le> 1 / x" for x P :: rat
      using that by (simp add: field_simps)
    have inv_less: "1 / P < x" if "0 < x" "0 < P" "1 / x < P" for x P :: rat
      using that by (simp add: field_simps)
    have e1: "(2::rat) powi (1 - ?b) = 1 / 2 powi (?b - 1)"
      by (metis minus_diff_eq power_int_minus_divide)
    have e2: "(2::rat) powi (- ?b) = 1 / 2 powi ?b"
      by (simp add: power_int_minus_divide)
    have up: "q \<le> 2 powi (1 - ?b)"
      unfolding e1 by (rule inv_le [OF assms pos A])
    have lo: "2 powi (- ?b) < q"
      unfolding e2 by (rule inv_less [OF assms pos B])
    show ?thesis
    proof (cases "2 powi (1 - ?b) \<le> q")
      case True
      with up have eq: "q = 2 powi (1 - ?b)" by simp
      have "(2::rat) powi (1 - ?b) < 2 powi (1 - ?b + 1)"
        by (intro power_int_strict_increasing) simp_all
      with True eq False show ?thesis by (simp add: ilog2_def Let_def)
    next
      case ne: False
      then have "q < 2 powi (- ?b + 1)" by (simp add: add.commute)
      with ne lo False show ?thesis by (simp add: ilog2_def Let_def)
    qed
  qed
  then show "2 powi (ilog2 q) \<le> q" and "q < 2 powi (ilog2 q + 1)" by simp_all
qed

lemma ilog2_unique:
  assumes "0 < q" and "2 powi E \<le> q" and "q < 2 powi (E + 1)"
  shows "ilog2 q = E"
proof -
  from ilog2_bounds [OF assms(1)] have lo: "2 powi (ilog2 q) \<le> q" and hi: "q < 2 powi (ilog2 q + 1)" .
  have "\<not> ilog2 q < E"
  proof
    assume "ilog2 q < E"
    then have "ilog2 q + 1 \<le> E" by simp
    then have "(2::rat) powi (ilog2 q + 1) \<le> 2 powi E" by (intro power_int_increasing) simp_all
    with hi assms(2) show False by simp
  qed
  moreover have "\<not> E < ilog2 q"
  proof
    assume "E < ilog2 q"
    then have "E + 1 \<le> ilog2 q" by simp
    then have "(2::rat) powi (E + 1) \<le> 2 powi (ilog2 q)" by (intro power_int_increasing) simp_all
    with lo assms(3) show False by simp
  qed
  ultimately show ?thesis by simp
qed



lemma round_double_eqI:
  assumes "q \<noteq> 0" and "2 powi E \<le> \<bar>q\<bar>" and "\<bar>q\<bar> < 2 powi (E + 1)"
    and "e = max (E - 52) min_exp"
    and "\<bar>q / 2 powi e - of_int m\<bar> < 1 / 2
         \<or> (\<bar>q / 2 powi e - of_int m\<bar> = 1 / 2 \<and> even m)"
    and "\<bar>of_int m * 2 powi e\<bar> < huge"
  shows "round_double q = Fin (of_int m * 2 powi e)"
proof -
  from assms(1) have "0 < \<bar>q\<bar>" by simp
  from ilog2_unique [OF this assms(2,3)] have "ilog2 \<bar>q\<bar> = E" .
  moreover from round_even_unique [OF assms(5)] have "round_even (q / 2 powi e) = m" .
  moreover from assms(6) have "\<not> huge \<le> of_int m * (2::rat) powi e"
    "\<not> of_int m * (2::rat) powi e \<le> - huge" by linarith+
  ultimately show ?thesis using assms(1,4)
    by (simp add: round_double_def Let_def)
qed

lemma round_double_not_NaN [simp]: "round_double q \<noteq> NaN"
  by (simp add: round_double_def Let_def)


lemma on_grid_iff: "on_grid r \<longleftrightarrow> (\<exists>k::int. r = of_int k * 2 powi min_exp)"
proof
  assume "on_grid r"
  then have "r = of_int \<lfloor>r / 2 powi min_exp\<rfloor> * 2 powi min_exp"
    by (simp add: on_grid_def field_simps)
  then show "\<exists>k::int. r = of_int k * 2 powi min_exp" ..
next
  assume "\<exists>k::int. r = of_int k * 2 powi min_exp"
  then show "on_grid r" by (auto simp: on_grid_def)
qed

lemma powi_ge_min_exp:
  assumes "min_exp \<le> e"
  shows "(2::rat) powi e = of_int (2 ^ nat (e - min_exp)) * 2 powi min_exp"
proof -
  have "(2::rat) powi e = 2 powi (e - min_exp) * 2 powi min_exp"
    by (simp flip: power_int_add)
  also have "(2::rat) powi (e - min_exp) = of_int (2 ^ nat (e - min_exp))"
    using assms by (simp add: power_int_def)
  finally show ?thesis .
qed

lemma on_grid_of_int [simp]: "on_grid (of_int k)"
proof -
  have "(2::rat) powi 0 = of_int (2 ^ nat (0 - min_exp)) * 2 powi min_exp"
    by (rule powi_ge_min_exp) (simp add: min_exp_def)
  then have "(of_int k :: rat) = of_int (k * 2 ^ nat (0 - min_exp)) * 2 powi min_exp" by simp
  then show ?thesis unfolding on_grid_iff by blast
qed

lemma on_grid_0 [simp]: "on_grid 0"
  using on_grid_of_int [of 0] by simp

lemma on_grid_of_nat [simp]: "on_grid (of_nat n)"
  using on_grid_of_int [of "int n"] by simp

lemma round_double_on_grid: "round_double q = Fin r \<Longrightarrow> on_grid r"
proof (cases "q = 0")
  case True
  assume "round_double q = Fin r"
  with True show ?thesis by (simp add: round_double_def)
next
  case False
  assume rd: "round_double q = Fin r"
  let ?e = "max (ilog2 \<bar>q\<bar> - 52) min_exp"
  let ?m = "round_even (q / 2 powi ?e)"
  from rd False have r: "r = of_int ?m * 2 powi ?e"
    by (simp add: round_double_def Let_def split: if_splits)
  have "(2::rat) powi ?e = of_int (2 ^ nat (?e - min_exp)) * 2 powi min_exp"
    by (rule powi_ge_min_exp) simp
  with r have "r = of_int (?m * 2 ^ nat (?e - min_exp)) * 2 powi min_exp"
    by simp
  then show ?thesis unfolding on_grid_iff by blast
qed



lemma on_grid_uminus: "on_grid a \<Longrightarrow> on_grid (- a)"
  unfolding on_grid_iff
proof -
  assume "\<exists>k::int. a = of_int k * 2 powi min_exp"
  then obtain k :: int where "a = of_int k * 2 powi min_exp" ..
  then have "- a = of_int (- k) * 2 powi min_exp" by simp
  then show "\<exists>k::int. - a = of_int k * 2 powi min_exp" ..
qed




lemma js_le_NaN [simp]: "\<not> js_le NaN y" "\<not> js_le x NaN"
  by (cases x; simp)+

lemma grid_round_double [simp]: "grid_number (round_double q)"
  by (cases "round_double q") (simp_all add: round_double_on_grid)

lemma round_double_of_int:
  assumes "\<bar>k\<bar> < 2 ^ 53"
  shows "round_double (of_int k) = Fin (of_int k)"
proof (cases "k = 0")
  case True
  then show ?thesis by (simp add: round_double_def)
next
  case False
  let ?q = "of_int k :: rat"
  let ?E = "ilog2 \<bar>?q\<bar>"
  have pos: "0 < \<bar>?q\<bar>" using False by simp
  from ilog2_bounds [OF pos] have lo: "2 powi ?E \<le> \<bar>?q\<bar>" and hi: "\<bar>?q\<bar> < 2 powi (?E + 1)" .
  have one: "(1::rat) \<le> \<bar>?q\<bar>"
  proof -
    from False have "1 \<le> \<bar>k\<bar>" by simp
    then have "(of_int 1 :: rat) \<le> of_int \<bar>k\<bar>" by (simp only: of_int_le_iff)
    then show ?thesis by simp
  qed
  have E0: "0 \<le> ?E"
  proof (rule ccontr)
    assume "\<not> 0 \<le> ?E"
    then have "?E + 1 \<le> 0" by simp
    then have "(2::rat) powi (?E + 1) \<le> 2 powi 0"
      by (intro power_int_increasing) simp_all
    with hi one show False by simp
  qed
  have E52: "?E \<le> 52"
  proof (rule ccontr)
    assume "\<not> ?E \<le> 52"
    then have "53 \<le> ?E" by simp
    then have "(2::rat) powi 53 \<le> 2 powi ?E"
      by (intro power_int_increasing) simp_all
    with lo have "(2::rat) powi 53 \<le> \<bar>?q\<bar>" by linarith
    moreover have "\<bar>?q\<bar> < 2 ^ 53"
    proof -
      from assms have "(of_int \<bar>k\<bar> :: rat) < of_int (2 ^ 53)" by (simp only: of_int_less_iff)
      then show ?thesis by simp
    qed
    ultimately show False by simp
  qed
  define n where "n = nat (52 - ?E)"
  have n: "int n = 52 - ?E" using E52 by (simp add: n_def)
  have e: "?E - 52 = max (?E - 52) min_exp" using E0 by (simp add: min_exp_def)
  have p: "(2::rat) powi (?E - 52) = 1 / 2 ^ n"
  proof -
    have "?E - 52 = - int n" using n by simp
    then show ?thesis by (simp add: power_int_minus_divide)
  qed
  have m: "?q / 2 powi (?E - 52) = of_int (k * 2 ^ n)"
    by (simp add: p)
  have bk: "of_int (k * 2 ^ n) * (2::rat) powi (?E - 52) = ?q"
    by (simp add: p)
  have "round_double ?q = Fin (of_int (k * 2 ^ n) * 2 powi (?E - 52))"
  proof (rule round_double_eqI [OF _ lo hi e])
    show "?q \<noteq> 0" using False by simp
    show "\<bar>?q / 2 powi (?E - 52) - of_int (k * 2 ^ n)\<bar> < 1 / 2
        \<or> (\<bar>?q / 2 powi (?E - 52) - of_int (k * 2 ^ n)\<bar> = 1 / 2 \<and> even (k * 2 ^ n))"
      by (simp only: m) simp
    have "\<bar>?q\<bar> < 2 ^ 53"
    proof -
      from assms have "(of_int \<bar>k\<bar> :: rat) < of_int (2 ^ 53)" by (simp only: of_int_less_iff)
      then show ?thesis by simp
    qed
    also have "(2::rat) ^ 53 < huge" by (simp add: huge_def)
    finally show "\<bar>of_int (k * 2 ^ n) * 2 powi (?E - 52)\<bar> < huge"
      by (simp only: bk)
  qed
  then show ?thesis by (simp only: bk)
qed

lemma round_double_numeral [simp]:
  "numeral n < (2::int) ^ 53 \<Longrightarrow> round_double (numeral n) = Fin (numeral n)"
  using round_double_of_int [of "numeral n"] by simp

lemma round_double_1 [simp]: "round_double 1 = Fin 1"
  using round_double_of_int [of 1] by simp

lemma round_double_of_nat:
  "n < 2 ^ 53 \<Longrightarrow> round_double (of_nat n) = Fin (of_nat n)"
  using round_double_of_int [of "int n"] by simp

lemma grid_js_add [simp]: "grid_number (js_add x y)"
  by (cases x; cases y) simp_all

lemma grid_js_div [simp]: "grid_number (js_div x y)"
  by (cases x; cases y) simp_all

lemma grid_js_mul [simp]: "grid_number (js_mul x y)"
  by (cases x; cases y) simp_all

lemma round_double_0 [simp]: "round_double 0 = Fin 0"
  by (simp add: round_double_def)

lemma round_double_neg_numeral [simp]:
  "numeral n < (2::int) ^ 53 \<Longrightarrow> round_double (- numeral n) = Fin (- numeral n)"
  using round_double_of_int [of "- numeral n"] by simp


text \<open>
  Particular roundings, each by the certificate \<open>round_double_eqI\<close>: the binary
  exponent of the argument and the integer significand of the result.
\<close>

lemma double_half: "round_double (1 / 2) = Fin (1 / 2)"
  using round_double_eqI [of "1 / 2" "- 1" "- 53" 4503599627370496]
  by (simp add: power_int_minus_divide min_exp_def huge_def)

lemma double_third: "round_double (1 / 3) = Fin (6004799503160661 / 2 ^ 54)"
  using round_double_eqI [of "1 / 3" "- 2" "- 54" 6004799503160661]
  by (simp add: power_int_minus_divide min_exp_def huge_def)

lemma double_third_100:
  "round_double (6004799503160661 / 2 ^ 54 * 100) = Fin (4691249611844266 / 2 ^ 47)"
  using round_double_eqI [of "6004799503160661 / 2 ^ 54 * 100" 5 "- 47" 4691249611844266]
  by (simp add: power_int_minus_divide min_exp_def huge_def)

lemma double_100_3: "round_double (100 / 3) = Fin (4691249611844267 / 2 ^ 47)"
  using round_double_eqI [of "100 / 3" 5 "- 47" 4691249611844267]
  by (simp add: power_int_minus_divide min_exp_def huge_def)






subsection \<open>Sorting with a comparator\<close>

lemma mset_sort_insert: "mset (sort_insert cmp x ys) = add_mset x (mset ys)"
  by (induction ys) auto

lemma mset_array_sort: "mset (array_sort cmp xs) = mset xs"
  by (induction xs) (auto simp: array_sort_def mset_sort_insert)

lemma set_array_sort: "set (array_sort cmp xs) = set xs"
  using mset_array_sort [of cmp xs] by (metis set_mset_mset)




section \<open>Sample-data endpoint: the listing\<close>

text \<open>
  C7. On a successful directory read the endpoint answers 200 with exactly the directory
  entries whose names end in \<open>.slp\<close>, in directory order: every such entry is listed and
  no other name is; on a failed read it answers 500.
\<close>

theorem sample_handler_lists_slp:
  "sample_status (sample_handler (Inr files)) = 200
   \<and> (\<exists>listed. sample_json (sample_handler (Inr files)) = FilesBody listed
        \<and> listed = filter (\<lambda>f. endsWith f ''.slp'') files
        \<and> set listed = {f \<in> set files. \<exists>pre. f = pre @ ''.slp''})
   \<and> sample_status (sample_handler (Inl e)) = 500"
  by (auto simp: sample_handler_def endsWith_iff)

theorem sample_handler_lists_slp_witness:
  "sample_handler (Inr [''a.slp'', ''notes.txt'', ''b.slp'']) =
     \<lparr>sample_status = 200, sample_json = FilesBody [''a.slp'', ''b.slp'']\<rparr>
   \<and> sample_status (sample_handler (Inl ())) = 500"
  using sample_handler_lists_slp [of "[''a.slp'', ''notes.txt'', ''b.slp'']" "()"]
  by (simp add: endsWith_def sample_handler_def)

section \<open>Summary statistics helpers: average and median\<close>














section \<open>Upload endpoint: the loop over the archive\<close>

lemma parse_after_write:
  "writeFileSync e fs p d = Some fs1 \<Longrightarrow> parseSlippiReplay e fs1 p = SlippiGame e d"
  by (auto simp: writeFileSync_def parseSlippiReplay_def split: if_splits)

text \<open>
  When every temporary write succeeds the loop runs to its end: it appends one result and
  one write/parse/unlink triple per replay entry, in the order of the entries.
\<close>

lemma zip_loop_all_written:
  "writes_succeed e entries \<Longrightarrow>
   \<exists>fs'. zip_loop e entries st =
     Inr \<lparr>ls_disk = fs',
          ls_events = ls_events st @ concat (map (entry_events e) (slp_entries entries)),
          ls_results = ls_results st @ map (expected_result e) (slp_entries entries)\<rparr>"
proof (induction entries arbitrary: st)
  case Nil
  show ?case by (cases st) (simp add: slp_entries_def)
next
  case (Cons en entries)
  obtain filename data where en: "en = (filename, data)" by (cases en)
  show ?case
  proof (cases "endsWith filename ''.slp''")
    case False
    with Cons en show ?thesis
      by (simp add: slp_entries_def writes_succeed_def)
  next
    case True
    with Cons.prems en have w: "write_ok e (tempPath_of e filename)"
      and rest: "writes_succeed e entries"
      by (simp_all add: slp_entries_def writes_succeed_def)
    let ?t = "tempPath_of e filename"
    let ?fs1 = "(ls_disk st)(?t := Some data)"
    have wr: "writeFileSync e (ls_disk st) ?t data = Some ?fs1"
      using w by (simp add: writeFileSync_def)
    have pa: "parseSlippiReplay e ?fs1 ?t = SlippiGame e data"
      by (rule parse_after_write [OF wr])
    let ?st1 = "\<lparr>ls_disk = (case unlinkSync e ?fs1 ?t of Some fs' \<Rightarrow> fs' | None \<Rightarrow> ?fs1),
                 ls_events = ls_events st @ entry_events e (filename, data),
                 ls_results = ls_results st @ [expected_result e (filename, data)]\<rparr>"
    have z: "zip_loop e (en # entries) st = zip_loop e entries ?st1"
      using True en wr pa by (simp add: Let_def expected_result_def entry_events_def)
    from Cons.IH [OF rest, of ?st1] obtain fs' where
      "zip_loop e entries ?st1 =
         Inr \<lparr>ls_disk = fs',
              ls_events = ls_events ?st1 @ concat (map (entry_events e) (slp_entries entries)),
              ls_results = ls_results ?st1 @ map (expected_result e) (slp_entries entries)\<rparr>"
      by blast
    with z True en show ?thesis
      by (simp add: slp_entries_def)
  qed
qed

text \<open>
  Whether unlinking succeeds changes the file system the loop leaves behind, not what it
  returns: each parse reads the path that was written just before it.
\<close>

lemma zip_loop_unlink_irrelevant:
  "ls_results st = ls_results st' \<Longrightarrow>
   map_sum ls_results ls_results (zip_loop (e\<lparr>unlink_ok := u\<rparr>) entries st')
     = map_sum ls_results ls_results (zip_loop e entries st)"
proof (induction entries arbitrary: st st')
  case Nil
  then show ?case by simp
next
  case (Cons en entries)
  obtain filename data where en: "en = (filename, data)" by (cases en)
  let ?e' = "e\<lparr>unlink_ok := u\<rparr>"
  have t: "tempPath_of ?e' filename = tempPath_of e filename"
    by (simp add: tempPath_of_def)
  show ?case
  proof (cases "endsWith filename ''.slp''")
    case False
    with Cons.IH [of st st'] Cons.prems en show ?thesis by simp
  next
    case slp: True
    show ?thesis
    proof (cases "write_ok e (tempPath_of e filename)")
      case False
      with slp en t Cons.prems show ?thesis
        by (simp add: writeFileSync_def)
    next
      case True
      let ?t = "tempPath_of e filename"
      have p1: "parseSlippiReplay e ((ls_disk st)(?t := Some data)) ?t = SlippiGame e data"
        by (simp add: parseSlippiReplay_def)
      have p2: "parseSlippiReplay ?e' ((ls_disk st')(?t := Some data)) ?t = SlippiGame e data"
        by (simp add: parseSlippiReplay_def)
      let ?r = "case SlippiGame e data of Some parsed \<Rightarrow> Parsed filename parsed
                | None \<Rightarrow> Failed filename ''Failed to parse''"
      have step: "\<And>d d' ev ev'.
         map_sum ls_results ls_results (zip_loop ?e' entries
            \<lparr>ls_disk = d', ls_events = ev', ls_results = ls_results st' @ [?r]\<rparr>)
         = map_sum ls_results ls_results (zip_loop e entries
            \<lparr>ls_disk = d, ls_events = ev, ls_results = ls_results st @ [?r]\<rparr>)"
        using Cons.prems by (intro Cons.IH) simp
      from True slp en t p1 p2 show ?thesis
        by (simp add: writeFileSync_def Let_def step)
    qed
  qed
qed

lemma zip_loop_unlink_cases:
  fixes e :: "('r, 'd, 'p) env"
  shows "zip_loop (e\<lparr>unlink_ok := u\<rparr>) entries st = Inl a
          \<Longrightarrow> zip_loop e entries st = Inr b \<Longrightarrow> False"
    and "zip_loop (e\<lparr>unlink_ok := u\<rparr>) entries st = Inr a
          \<Longrightarrow> zip_loop e entries st = Inl b \<Longrightarrow> False"
    and "zip_loop (e\<lparr>unlink_ok := u\<rparr>) entries st = Inr a
          \<Longrightarrow> zip_loop e entries st = Inr b \<Longrightarrow> ls_results a = ls_results b"
  using zip_loop_unlink_irrelevant
    [where st = st and st' = st and e = e and u = u and entries = entries]
  by auto

lemma handler_zip_unlink_irrelevant:
  "response (handler_zip (e\<lparr>unlink_ok := u\<rparr>) fs0 req) = response (handler_zip e fs0 req)"
  by (auto simp: handler_zip_def reply_def unzipFile_def readFileSync_def
      split: sum.splits option.splits list.splits prod.splits
      dest: zip_loop_unlink_cases)

lemma handler_zip_success:
  assumes "req_method req = ''POST''"
    and "form_parse e IncomingForm_options (multipart req) fs0 = Inr (Some (upfile # others), fs)"
    and "originalFilename upfile = Some name" and "endsWith name ''.zip''"
    and "readFileSync fs (filepath upfile) = Some zipBuffer"
    and "unzipFile e zipBuffer = Some entries"
    and "writes_succeed e entries"
  shows "response (handler_zip e fs0 req) =
           \<lparr>status = 200, json = Results (map (expected_result e) (slp_entries entries))\<rparr>"
    and "events (handler_zip e fs0 req) =
           ReadFile (filepath upfile) # concat (map (entry_events e) (slp_entries entries))
             @ [Unlink (filepath upfile)]"
proof -
  let ?st0 = "\<lparr>ls_disk = fs, ls_events = [ReadFile (filepath upfile)],
               ls_results = ([] :: 'c entry_result list)\<rparr>"
  from zip_loop_all_written [OF assms(7), of ?st0] obtain fs' where
    l: "zip_loop e entries ?st0 =
         Inr \<lparr>ls_disk = fs',
              ls_events = ls_events ?st0 @ concat (map (entry_events e) (slp_entries entries)),
              ls_results = ls_results ?st0 @ map (expected_result e) (slp_entries entries)\<rparr>"
    by blast
  have nf: "\<not> falsy (originalFilename upfile)"
    using assms(3,4) by (auto simp: falsy_def endsWith_def)
  from assms nf l show "response (handler_zip e fs0 req) =
           \<lparr>status = 200, json = Results (map (expected_result e) (slp_entries entries))\<rparr>"
    by (simp add: handler_zip_def)
  from assms nf l show "events (handler_zip e fs0 req) =
           ReadFile (filepath upfile) # concat (map (entry_events e) (slp_entries entries))
             @ [Unlink (filepath upfile)]"
    by (simp add: handler_zip_def)
qed

subsection \<open>Runs in the sample environment\<close>

lemma sample_env_simps:
  "form_parse sample_env opts (Some (n, c)) fs =
     (if length c > maxFileSize opts then Inl fs
      else Inr (Some [\<lparr>originalFilename = n, filepath = ''/tmp/upload''\<rparr>],
                fs(''/tmp/upload'' := Some c)))"
  "form_parse sample_env opts None fs = Inr (None, fs)"
  "APP_ENV sample_env = None"
  "path_join sample_env a b = a @ ''/'' @ b"
  "unzipSync sample_env [80, 75] =
     Some [(''a.slp'', [2]), (''readme.txt'', [9]), (''b.slp'', [5])]"
  "unzipSync sample_env [80, 75, 3] = Some [(''dir/c.slp'', [2])]"
  "unzipSync sample_env [80, 75, 4] = Some [(''a.slp'', [2]), (''dir/c.slp'', [2])]"
  "unzipSync sample_env [7] = None"
  "SlippiGame sample_env d = (if d = [2] then Some 7 else None)"
  "write_ok sample_env p = (p \<noteq> ''/tmp/tmp_dir/c.slp'')"
  "unlink_ok sample_env p = True"
  by (simp_all add: sample_env_def)

lemmas run_simps =
  handler_zip_def handler_slp_def post_upload_def sample_env_simps IncomingForm_options_def
  reply_def falsy_def endsWith_def readFileSync_def unzipFile_def tempPath_of_def
  writeFileSync_def parseSlippiReplay_def unlinkSync_def Let_def no_files_def fun_eq_iff

lemma sample_zip_run:
  "handler_zip sample_env no_files (post_upload ''games.zip'' [80, 75]) =
     \<lparr>response = \<lparr>status = 200,
         json = Results [Parsed ''a.slp'' 7, Failed ''b.slp'' ''Failed to parse'']\<rparr>,
      events = [ReadFile ''/tmp/upload'',
         WriteFile ''/tmp/tmp_a.slp'', ParseReplay ''/tmp/tmp_a.slp'', Unlink ''/tmp/tmp_a.slp'',
         WriteFile ''/tmp/tmp_b.slp'', ParseReplay ''/tmp/tmp_b.slp'', Unlink ''/tmp/tmp_b.slp'',
         Unlink ''/tmp/upload''],
      disk = no_files\<rparr>"
  by (simp add: run_simps)

lemma sample_zip_hyps:
  "req_method (post_upload ''games.zip'' [80, 75]) = ''POST''"
  "form_parse sample_env IncomingForm_options (multipart (post_upload ''games.zip'' [80, 75]))
     no_files =
   Inr (Some [\<lparr>originalFilename = Some ''games.zip'', filepath = ''/tmp/upload''\<rparr>],
        no_files(''/tmp/upload'' := Some [80, 75]))"
  "endsWith ''games.zip'' ''.zip''"
  "readFileSync (no_files(''/tmp/upload'' := Some [80, 75])) ''/tmp/upload'' = Some [80, 75]"
  "unzipFile sample_env [80, 75] =
     Some [(''a.slp'', [2]), (''readme.txt'', [9]), (''b.slp'', [5])]"
  "writes_succeed sample_env [(''a.slp'', [2]), (''readme.txt'', [9]), (''b.slp'', [5])]"
  by (simp_all add: run_simps writes_succeed_def slp_entries_def)

section \<open>Upload endpoint: batch results\<close>

text \<open>
  C1 (as amended). For a POST upload of a \<open>.zip\<close> file that is read and unzipped, and
  whose temporary writes all succeed, the batch handler answers 200 with a results array
  holding exactly one entry per archive entry whose name ends in \<open>.slp\<close>, in archive
  order: \<open>{filename, parsed}\<close> when the parser succeeds on the entry and
  \<open>{filename, error: "Failed to parse"}\<close> when it throws. Other entries contribute
  nothing, and a failing parse does not stop the entries after it.
\<close>

theorem zip_batch_results:
  assumes "req_method req = ''POST''"
    and "form_parse e IncomingForm_options (multipart req) fs0 = Inr (Some (upfile # others), fs)"
    and "originalFilename upfile = Some name" and "endsWith name ''.zip''"
    and "readFileSync fs (filepath upfile) = Some zipBuffer"
    and "unzipFile e zipBuffer = Some entries"
    and "writes_succeed e entries"
  shows "response (handler_zip e fs0 req) =
           \<lparr>status = 200, json = Results (map (expected_result e) (slp_entries entries))\<rparr>"
  using assms by (rule handler_zip_success(1))

theorem zip_batch_results_witness:
  "response (handler_zip sample_env no_files (post_upload ''games.zip'' [80, 75])) =
     \<lparr>status = 200, json = Results [Parsed ''a.slp'' 7, Failed ''b.slp'' ''Failed to parse'']\<rparr>"
proof -
  note h = sample_zip_hyps
  have "response (handler_zip sample_env no_files (post_upload ''games.zip'' [80, 75])) =
     \<lparr>status = 200, json = Results (map (expected_result sample_env)
        (slp_entries [(''a.slp'', [2]), (''readme.txt'', [9]), (''b.slp'', [5])]))\<rparr>"
    by (rule zip_batch_results
          [where upfile = "\<lparr>originalFilename = Some ''games.zip'', filepath = ''/tmp/upload''\<rparr>"
             and others = "[]" and name = "''games.zip''" and zipBuffer = "[80, 75]"
             and fs = "no_files(''/tmp/upload'' := Some [80, 75])"])
       (simp_all add: h)
  then show ?thesis
    by (simp add: expected_result_def slp_entries_def endsWith_def sample_env_simps)
qed

text \<open>
  The claim as first stated asks for 200 whenever the archive unzips. An archive entry
  inside a directory gets a temporary path in a directory that does not exist; the write
  throws outside the per-entry \<open>try\<close> and the whole request is answered 500.
\<close>

theorem zip_batch_results_counterexample:
  "unzipFile sample_env [80, 75, 3] = Some [(''dir/c.slp'', [2])]
   \<and> response (handler_zip sample_env no_files (post_upload ''nested.zip'' [80, 75, 3])) =
       \<lparr>status = 500, json = Message ''Error parsing replay file''\<rparr>"
  by (simp add: run_simps)

section \<open>Upload endpoint: rejected uploads\<close>

text \<open>
  C2 (as amended). For a POST request whose form parses: with no \<open>replayFile\<close> field
  (or an empty one) both handlers answer 400 \<open>No replay file uploaded\<close>; the
  single-replay handler answers 400 \<open>Only .slp files are accepted\<close> when the first
  upload has no original filename or one that does not end in \<open>.slp\<close>; the zip-batch
  handler answers 400 \<open>Only .zip files are accepted\<close> when the first upload has no
  original filename or one that does not end in \<open>.zip\<close>. On each of these paths
  nothing is read, written, parsed or unlinked, so the replay parser is not invoked.
\<close>

theorem upload_rejects_other_extensions:
  assumes "req_method req = ''POST''"
    and "form_parse e IncomingForm_options (multipart req) fs0 = Inr (replayFile, fs)"
  shows "(replayFile = None \<or> replayFile = Some [] \<longrightarrow>
            handler_slp e fs0 req = reply 400 ''No replay file uploaded'' [] fs
            \<and> handler_zip e fs0 req = reply 400 ''No replay file uploaded'' [] fs)
       \<and> (\<forall>upfile others. replayFile = Some (upfile # others) \<longrightarrow>
            (originalFilename upfile = None
               \<or> \<not> endsWith (the (originalFilename upfile)) ''.slp'' \<longrightarrow>
             response (handler_slp e fs0 req) =
               \<lparr>status = 400, json = Message ''Only .slp files are accepted''\<rparr>
             \<and> events (handler_slp e fs0 req) = [])
          \<and> (originalFilename upfile = None
               \<or> \<not> endsWith (the (originalFilename upfile)) ''.zip'' \<longrightarrow>
             response (handler_zip e fs0 req) =
               \<lparr>status = 400, json = Message ''Only .zip files are accepted''\<rparr>
             \<and> events (handler_zip e fs0 req) = []))"
  using assms
  by (auto simp: handler_slp_def handler_zip_def reply_def falsy_def)

theorem upload_rejects_other_extensions_witness:
  "response (handler_slp sample_env no_files (post_upload ''notes.txt'' [9])) =
     \<lparr>status = 400, json = Message ''Only .slp files are accepted''\<rparr>
   \<and> events (handler_slp sample_env no_files (post_upload ''notes.txt'' [9])) = []
   \<and> response (handler_zip sample_env no_files (post_upload ''notes.txt'' [9])) =
     \<lparr>status = 400, json = Message ''Only .zip files are accepted''\<rparr>
   \<and> events (handler_zip sample_env no_files (post_upload ''notes.txt'' [9])) = []
   \<and> response (handler_slp sample_env no_files \<lparr>req_method = ''POST'', multipart = None\<rparr>) =
     \<lparr>status = 400, json = Message ''No replay file uploaded''\<rparr>"
proof -
  have m: "req_method (post_upload ''notes.txt'' [9]) = ''POST''"
    by (simp add: post_upload_def)
  have f: "form_parse sample_env IncomingForm_options
             (multipart (post_upload ''notes.txt'' [9])) no_files =
           Inr (Some [\<lparr>originalFilename = Some ''notes.txt'', filepath = ''/tmp/upload''\<rparr>],
                no_files(''/tmp/upload'' := Some [9]))"
    by (simp add: post_upload_def sample_env_simps IncomingForm_options_def)
  have f0: "form_parse sample_env IncomingForm_options
             (multipart \<lparr>req_method = ''POST'', multipart = None\<rparr>) no_files = Inr (None, no_files)"
    by (simp add: sample_env_simps)
  show ?thesis
    using upload_rejects_other_extensions [OF m f]
      upload_rejects_other_extensions [OF _ f0]
    by (simp add: endsWith_def reply_def)
qed

text \<open>
  The claim as first stated has every filename that does not end in \<open>.slp\<close> rejected
  with 400 and no parser call. The zip-batch handler accepts \<open>games.zip\<close> and parses
  the replays inside it.
\<close>

theorem upload_rejects_other_extensions_counterexample:
  "\<not> endsWith ''games.zip'' ''.slp''
   \<and> status (response (handler_zip sample_env no_files (post_upload ''games.zip'' [80, 75])))
       = 200
   \<and> ParseReplay ''/tmp/tmp_a.slp''
       \<in> set (events (handler_zip sample_env no_files (post_upload ''games.zip'' [80, 75])))"
  by (simp add: sample_zip_run) (simp add: endsWith_def)

section \<open>Upload endpoint: the size cap and form errors\<close>

text \<open>
  C6. Both handlers configure the form with a maximum file size of
  \<open>10 * 1024 * 1024\<close> bytes. Whenever form parsing of a POST request reports an error,
  they answer 500 \<open>Error parsing form data\<close> and call nothing else, the replay parser
  included. Given that formidable reports an error for an upload larger than the
  \<open>maxFileSize\<close> it was configured with, this is the answer to every upload of more
  than \<open>10 * 1024 * 1024\<close> bytes.
\<close>

theorem form_error_and_size_cap:
  assumes "req_method req = ''POST''"
    and "\<forall>opts u fs. maxFileSize opts < size_of u \<longrightarrow> isl (form_parse e opts u fs)"
  shows "maxFileSize IncomingForm_options = 10 * 1024 * 1024
       \<and> (isl (form_parse e IncomingForm_options (multipart req) fs0)
            \<or> 10 * 1024 * 1024 < size_of (multipart req) \<longrightarrow>
          response (handler_slp e fs0 req) =
            \<lparr>status = 500, json = Message ''Error parsing form data''\<rparr>
          \<and> events (handler_slp e fs0 req) = []
          \<and> response (handler_zip e fs0 req) =
            \<lparr>status = 500, json = Message ''Error parsing form data''\<rparr>
          \<and> events (handler_zip e fs0 req) = [])"
proof -
  have cap: "maxFileSize IncomingForm_options = 10 * 1024 * 1024"
    by (simp add: IncomingForm_options_def)
  have big: "isl (form_parse e IncomingForm_options (multipart req) fs0)"
    if "10 * 1024 * 1024 < size_of (multipart req)"
    using that assms(2) cap by simp
  have err: "response (handler_slp e fs0 req) =
            \<lparr>status = 500, json = Message ''Error parsing form data''\<rparr>
          \<and> events (handler_slp e fs0 req) = []
          \<and> response (handler_zip e fs0 req) =
            \<lparr>status = 500, json = Message ''Error parsing form data''\<rparr>
          \<and> events (handler_zip e fs0 req) = []"
    if "isl (form_parse e IncomingForm_options (multipart req) fs0)"
    using that assms(1)
    by (cases "form_parse e IncomingForm_options (multipart req) fs0")
       (simp_all add: handler_slp_def handler_zip_def reply_def)
  from cap big err show ?thesis by blast
qed

theorem form_error_and_size_cap_witness:
  "maxFileSize IncomingForm_options = 10485760
   \<and> response (handler_slp sample_env no_files
        (post_upload ''big.slp'' (replicate 10485761 9))) =
       \<lparr>status = 500, json = Message ''Error parsing form data''\<rparr>
   \<and> events (handler_zip sample_env no_files
        (post_upload ''big.slp'' (replicate 10485761 9))) = []"
proof -
  have m: "req_method (post_upload ''big.slp'' (replicate 10485761 9)) = ''POST''"
    by (simp add: post_upload_def)
  have c: "\<forall>opts u fs. maxFileSize opts < upload_bytes u
             \<longrightarrow> isl (form_parse sample_env opts u fs)"
    by (simp add: upload_bytes_def sample_env_def split: option.splits prod.splits)
  show ?thesis
    using form_error_and_size_cap [OF m c, of no_files]
    by (simp add: upload_bytes_def post_upload_def)
qed

section \<open>Upload endpoint: temporary files\<close>

text \<open>
  The calls the loop makes, whether or not it gets to the end of the archive: one
  write/parse/unlink triple for every replay entry that is written, and then the write
  that threw, if one did.
\<close>

lemma zip_loop_trace:
  "isl (zip_loop e entries st) = (unwritten_entries e entries \<noteq> [])
   \<and> ls_events (case zip_loop e entries st of Inl s \<Rightarrow> s | Inr s \<Rightarrow> s) =
       ls_events st @ concat (map (entry_events e) (written_entries e entries))
         @ (case unwritten_entries e entries of
              [] \<Rightarrow> []
            | (filename, data) # rest \<Rightarrow> [WriteFile (tempPath_of e filename)])"
proof (induction entries arbitrary: st)
  case Nil
  show ?case by (simp add: written_entries_def unwritten_entries_def slp_entries_def)
next
  case (Cons en entries)
  obtain filename data where en: "en = (filename, data)" by (cases en)
  show ?case
  proof (cases "endsWith filename ''.slp''")
    case False
    with Cons [of st] en show ?thesis
      by (simp add: written_entries_def unwritten_entries_def slp_entries_def)
  next
    case slp: True
    show ?thesis
    proof (cases "write_ok e (tempPath_of e filename)")
      case False
      with slp en show ?thesis
        by (simp add: written_entries_def unwritten_entries_def slp_entries_def
            writeFileSync_def)
    next
      case True
      let ?t = "tempPath_of e filename"
      let ?fs1 = "(ls_disk st)(?t := Some data)"
      let ?st1 = "\<lparr>ls_disk = (case unlinkSync e ?fs1 ?t of Some fs' \<Rightarrow> fs' | None \<Rightarrow> ?fs1),
                   ls_events = ls_events st @ entry_events e (filename, data),
                   ls_results = ls_results st
                     @ [case parseSlippiReplay e ?fs1 ?t of
                          Some parsed \<Rightarrow> Parsed filename parsed
                        | None \<Rightarrow> Failed filename ''Failed to parse'']\<rparr>"
      have z: "zip_loop e (en # entries) st = zip_loop e entries ?st1"
        using True slp en by (simp add: Let_def writeFileSync_def entry_events_def)
      from Cons [of ?st1] z True slp en show ?thesis
        by (simp add: written_entries_def unwritten_entries_def slp_entries_def)
    qed
  qed
qed

lemma handler_zip_trace:
  assumes "req_method req = ''POST''"
    and "form_parse e IncomingForm_options (multipart req) fs0 = Inr (Some (upfile # others), fs)"
    and "originalFilename upfile = Some name" and "endsWith name ''.zip''"
    and "readFileSync fs (filepath upfile) = Some zipBuffer"
    and "unzipFile e zipBuffer = Some entries"
  shows "events (handler_zip e fs0 req) =
           ReadFile (filepath upfile) # concat (map (entry_events e) (written_entries e entries))
             @ (case unwritten_entries e entries of
                  [] \<Rightarrow> [Unlink (filepath upfile)]
                | (filename, data) # rest \<Rightarrow> [WriteFile (tempPath_of e filename)])"
    and "status (response (handler_zip e fs0 req)) =
           (if unwritten_entries e entries = [] then 200 else 500)"
proof -
  let ?st0 = "\<lparr>ls_disk = fs, ls_events = [ReadFile (filepath upfile)],
               ls_results = ([] :: 'c entry_result list)\<rparr>"
  have nf: "\<not> falsy (originalFilename upfile)"
    using assms(3,4) by (auto simp: falsy_def endsWith_def)
  note t = zip_loop_trace [of e entries ?st0]
  have h: "handler_zip e fs0 req =
      (case zip_loop e entries ?st0 of
         Inl st \<Rightarrow> reply 500 ''Error parsing replay file'' (ls_events st) (ls_disk st)
       | Inr st \<Rightarrow>
           \<lparr>response = \<lparr>status = 200, json = Results (ls_results st)\<rparr>,
            events = ls_events st @ [Unlink (filepath upfile)],
            disk = (case unlinkSync e (ls_disk st) (filepath upfile) of
                      Some fs' \<Rightarrow> fs' | None \<Rightarrow> ls_disk st)\<rparr>)"
    using assms nf by (simp add: handler_zip_def)
  show "events (handler_zip e fs0 req) =
           ReadFile (filepath upfile) # concat (map (entry_events e) (written_entries e entries))
             @ (case unwritten_entries e entries of
                  [] \<Rightarrow> [Unlink (filepath upfile)]
                | (filename, data) # rest \<Rightarrow> [WriteFile (tempPath_of e filename)])"
    using t unfolding h
    by (cases "zip_loop e entries ?st0")
       (auto simp: reply_def split: list.splits)
  show "status (response (handler_zip e fs0 req)) =
           (if unwritten_entries e entries = [] then 200 else 500)"
    using t unfolding h
    by (cases "zip_loop e entries ?st0") (auto simp: reply_def)
qed

text \<open>
  C10 (as amended). In the zip-batch handler, once the upload is read and unzipped: for
  every \<open>.slp\<close> entry whose temporary file is written, the calls made before the
  response are the write of that file, its parse and the unlink of that file, whether the
  parse succeeded or threw and whether the request ends in 200 or in 500; the unlink of
  the uploaded zip's own temporary file is attempted when all entries were written (the
  200 path), and otherwise the last call is the write that threw. On every path, whether
  unlinking succeeds or fails does not change the response.
\<close>

theorem zip_batch_cleanup:
  "(req_method req = ''POST''
      \<and> form_parse e IncomingForm_options (multipart req) fs0 = Inr (Some (upfile # others), fs)
      \<and> originalFilename upfile = Some name \<and> endsWith name ''.zip''
      \<and> readFileSync fs (filepath upfile) = Some zipBuffer
      \<and> unzipFile e zipBuffer = Some entries
    \<longrightarrow> events (handler_zip e fs0 req) =
          ReadFile (filepath upfile) # concat (map (entry_events e) (written_entries e entries))
            @ (case unwritten_entries e entries of
                 [] \<Rightarrow> [Unlink (filepath upfile)]
               | (filename, data) # rest \<Rightarrow> [WriteFile (tempPath_of e filename)])
        \<and> status (response (handler_zip e fs0 req)) =
            (if unwritten_entries e entries = [] then 200 else 500))
   \<and> response (handler_zip (e\<lparr>unlink_ok := u\<rparr>) fs0 req) = response (handler_zip e fs0 req)"
  using handler_zip_trace
      [where req = req and e = e and ?fs0.0 = fs0 and upfile = upfile and others = others
         and fs = fs and name = name and zipBuffer = zipBuffer and entries = entries]
    handler_zip_unlink_irrelevant [where e = e and u = u and ?fs0.0 = fs0 and req = req]
  by blast

theorem zip_batch_cleanup_witness:
  "events (handler_zip sample_env no_files (post_upload ''games.zip'' [80, 75])) =
     [ReadFile ''/tmp/upload'',
      WriteFile ''/tmp/tmp_a.slp'', ParseReplay ''/tmp/tmp_a.slp'', Unlink ''/tmp/tmp_a.slp'',
      WriteFile ''/tmp/tmp_b.slp'', ParseReplay ''/tmp/tmp_b.slp'', Unlink ''/tmp/tmp_b.slp'',
      Unlink ''/tmp/upload'']
   \<and> events (handler_zip sample_env no_files (post_upload ''mixed.zip'' [80, 75, 4])) =
     [ReadFile ''/tmp/upload'',
      WriteFile ''/tmp/tmp_a.slp'', ParseReplay ''/tmp/tmp_a.slp'', Unlink ''/tmp/tmp_a.slp'',
      WriteFile ''/tmp/tmp_dir/c.slp'']
   \<and> status (response (handler_zip sample_env no_files (post_upload ''mixed.zip'' [80, 75, 4])))
       = 500
   \<and> response (handler_zip (sample_env\<lparr>unlink_ok := (\<lambda>p. False)\<rparr>) no_files
        (post_upload ''games.zip'' [80, 75])) =
       \<lparr>status = 200, json = Results [Parsed ''a.slp'' 7, Failed ''b.slp'' ''Failed to parse'']\<rparr>"
proof -
  note h = sample_zip_hyps
  have r: "response (handler_zip sample_env no_files (post_upload ''games.zip'' [80, 75])) =
       \<lparr>status = 200, json = Results [Parsed ''a.slp'' 7, Failed ''b.slp'' ''Failed to parse'']\<rparr>"
    by (simp add: sample_zip_run)
  have w: "written_entries sample_env [(''a.slp'', [2]), (''readme.txt'', [9]), (''b.slp'', [5])]
             = [(''a.slp'', [2]), (''b.slp'', [5])]"
    "unwritten_entries sample_env [(''a.slp'', [2]), (''readme.txt'', [9]), (''b.slp'', [5])] = []"
    "written_entries sample_env [(''a.slp'', [2]), (''dir/c.slp'', [2])] = [(''a.slp'', [2])]"
    "unwritten_entries sample_env [(''a.slp'', [2]), (''dir/c.slp'', [2])] = [(''dir/c.slp'', [2])]"
    by (simp_all add: written_entries_def unwritten_entries_def slp_entries_def endsWith_def
        tempPath_of_def sample_env_simps)
  have m: "form_parse sample_env IncomingForm_options
             (multipart (post_upload ''mixed.zip'' [80, 75, 4])) no_files =
           Inr (Some [\<lparr>originalFilename = Some ''mixed.zip'', filepath = ''/tmp/upload''\<rparr>],
                no_files(''/tmp/upload'' := Some [80, 75, 4]))"
    by (simp add: post_upload_def sample_env_simps IncomingForm_options_def)
  have m': "req_method (post_upload ''mixed.zip'' [80, 75, 4]) = ''POST''"
    "endsWith ''mixed.zip'' ''.zip''"
    "readFileSync (no_files(''/tmp/upload'' := Some [80, 75, 4])) ''/tmp/upload''
       = Some [80, 75, 4]"
    "unzipFile sample_env [80, 75, 4] = Some [(''a.slp'', [2]), (''dir/c.slp'', [2])]"
    by (simp_all add: post_upload_def endsWith_def readFileSync_def unzipFile_def
        sample_env_simps)
  from zip_batch_cleanup
    [where req = "post_upload ''games.zip'' [80, 75]" and e = sample_env and ?fs0.0 = no_files
       and upfile = "\<lparr>originalFilename = Some ''games.zip'', filepath = ''/tmp/upload''\<rparr>"
       and others = "[]" and name = "''games.zip''" and zipBuffer = "[80, 75]"
       and fs = "no_files(''/tmp/upload'' := Some [80, 75])"
       and entries = "[(''a.slp'', [2]), (''readme.txt'', [9]), (''b.slp'', [5])]"
       and u = "\<lambda>p. False"]
  have g: "events (handler_zip sample_env no_files (post_upload ''games.zip'' [80, 75])) =
     [ReadFile ''/tmp/upload'',
      WriteFile ''/tmp/tmp_a.slp'', ParseReplay ''/tmp/tmp_a.slp'', Unlink ''/tmp/tmp_a.slp'',
      WriteFile ''/tmp/tmp_b.slp'', ParseReplay ''/tmp/tmp_b.slp'', Unlink ''/tmp/tmp_b.slp'',
      Unlink ''/tmp/upload'']
    \<and> response (handler_zip (sample_env\<lparr>unlink_ok := (\<lambda>p. False)\<rparr>) no_files
        (post_upload ''games.zip'' [80, 75])) =
       \<lparr>status = 200, json = Results [Parsed ''a.slp'' 7, Failed ''b.slp'' ''Failed to parse'']\<rparr>"
    by (simp add: h r w entry_events_def tempPath_of_def sample_env_simps)
  from zip_batch_cleanup
    [where req = "post_upload ''mixed.zip'' [80, 75, 4]" and e = sample_env and ?fs0.0 = no_files
       and upfile = "\<lparr>originalFilename = Some ''mixed.zip'', filepath = ''/tmp/upload''\<rparr>"
       and others = "[]" and name = "''mixed.zip''" and zipBuffer = "[80, 75, 4]"
       and fs = "no_files(''/tmp/upload'' := Some [80, 75, 4])"
       and entries = "[(''a.slp'', [2]), (''dir/c.slp'', [2])]"
       and u = "\<lambda>p. False"]
  have x: "events (handler_zip sample_env no_files (post_upload ''mixed.zip'' [80, 75, 4])) =
     [ReadFile ''/tmp/upload'',
      WriteFile ''/tmp/tmp_a.slp'', ParseReplay ''/tmp/tmp_a.slp'', Unlink ''/tmp/tmp_a.slp'',
      WriteFile ''/tmp/tmp_dir/c.slp'']
    \<and> status (response (handler_zip sample_env no_files (post_upload ''mixed.zip'' [80, 75, 4])))
       = 500"
    by (simp add: m m' w entry_events_def tempPath_of_def sample_env_simps)
  from g x show ?thesis by simp
qed

text \<open>
  The claim as first stated has every temporary file of the request cleaned up before the
  response is sent, the uploaded zip's among them. When the archive does not unzip, the
  handler answers 500 having only read the upload: no unlink is attempted and the upload's
  temporary file is still there.
\<close>

theorem zip_batch_cleanup_counterexample:
  "response (handler_zip sample_env no_files (post_upload ''broken.zip'' [7])) =
     \<lparr>status = 500, json = Message ''Error parsing replay file''\<rparr>
   \<and> events (handler_zip sample_env no_files (post_upload ''broken.zip'' [7])) =
       [ReadFile ''/tmp/upload'']
   \<and> disk (handler_zip sample_env no_files (post_upload ''broken.zip'' [7])) ''/tmp/upload''
       = Some [7]"
  by (simp add: run_simps)

section \<open>File picker: the batch cap\<close>

lemma picker_step_selected:
  "selectedFiles (picker_step st ev) =
     (if valid_files ev = [] then selectedFiles st
      else take MAX_FILES (selectedFiles st @ valid_files ev))"
  by (cases ev)
     (auto simp: picker_step_def handleDrop_def handleFileChange_def valid_files_def Let_def
           split: option.splits)

lemma picker_step_bounded:
  "length (selectedFiles st) \<le> MAX_FILES \<Longrightarrow> length (selectedFiles (picker_step st ev)) \<le> MAX_FILES"
  by (auto simp: picker_step_selected min_def)

lemma picker_foldl_bounded:
  "length (selectedFiles st) \<le> MAX_FILES
     \<Longrightarrow> length (selectedFiles (foldl picker_step st evs)) \<le> MAX_FILES"
  by (induction evs arbitrary: st) (simp_all add: picker_step_bounded)

text \<open>
  C3 (as amended). In the variant of the file picker that declares \<open>MAX_FILES = 100\<close>:
  after any sequence of drops and file selections the selected-files list holds at most
  100 files; an addition that brings valid files sets the list to the first 100 files of
  the old list followed by the valid files, and any other event leaves the list as it
  was; so the list handed to \<open>onFileUpload\<close> never has more than 100 files.
\<close>

theorem picker_cap:
  "length (selectedFiles (picker_run evs)) \<le> 100
   \<and> (\<forall>submitted. handleSubmit (picker_run evs) = Some submitted \<longrightarrow> length submitted \<le> 100)
   \<and> selectedFiles (picker_step st ev) =
       (if valid_files ev = [] then selectedFiles st
        else take 100 (selectedFiles st @ valid_files ev))"
proof -
  have b: "length (selectedFiles (picker_run evs)) \<le> MAX_FILES"
    unfolding picker_run_def by (rule picker_foldl_bounded) (simp add: picker_init_def)
  have s: "length submitted \<le> MAX_FILES" if "handleSubmit (picker_run evs) = Some submitted"
    for submitted
    using that b by (auto simp: handleSubmit_def split: if_splits)
  from b s picker_step_selected [of st ev] show ?thesis
    by (simp add: MAX_FILES_def)
qed

theorem picker_cap_witness:
  "length (selectedFiles (picker_run
      [Drop (Some (replicate 60 ''a.slp'')), Change (Some (replicate 60 ''b.slp''))])) = 100
   \<and> handleSubmit (picker_run
      [Drop (Some (replicate 60 ''a.slp'')), Change (Some (replicate 60 ''b.slp''))]) =
     Some (replicate 60 ''a.slp'' @ replicate 40 ''b.slp'')"
proof -
  let ?evs = "[Drop (Some (replicate 60 ''a.slp'')), Change (Some (replicate 60 ''b.slp''))]"
  have r: "selectedFiles (picker_run ?evs) = replicate 60 ''a.slp'' @ replicate 40 ''b.slp''"
    by (simp add: picker_run_def picker_init_def picker_cap valid_files_def endsWith_def)
  have "length (selectedFiles (picker_run ?evs)) \<le> 100"
    using picker_cap [of ?evs] by simp
  with r show ?thesis
    by (simp add: handleSubmit_def)
qed

text \<open>
  The claim as first stated covers the picker of src/components/FileUpload.tsx too. That
  variant has no cap: one drop of 101 replay files leaves 101 files selected.
\<close>

theorem picker_cap_counterexample:
  "length (selectedFiles (picker_run_nocap [Drop (Some (replicate 101 ''a.slp''))])) = 101"
  by (simp add: picker_run_nocap_def picker_init_def picker_step_nocap_def
      handleDrop_nocap_def endsWith_def)

section \<open>Aggregation: what every pass over the replays preserves\<close>

lemma forEach_invariant:
  assumes "\<And>s x s'. I s \<Longrightarrow> f s x = Inr s' \<Longrightarrow> I s'"
    and "I s" and "forEach f xs s = Inr s'"
  shows "I s'"
  using assms(2,3)
proof (induction xs arbitrary: s)
  case Nil
  then show ?case by simp
next
  case (Cons x xs)
  then show ?case
    by (cases "f s x") (auto dest: assms(1))
qed

lemma set_obj_set: "set (obj_set k v m) \<subseteq> insert (k, v) (set m)"
  by (induction m) (auto split: if_splits)

lemma obj_set_all:
  assumes "\<forall>(k, a) \<in> set m. P a" and "P v"
  shows "\<forall>(k, a) \<in> set (obj_set k0 v m). P a"
  using assms set_obj_set [of k0 v m] by fastforce

lemma map_of_all:
  assumes "\<forall>(k, a) \<in> set m. P a"
  shows "P (case map_of m k of None \<Rightarrow> d | Some a \<Rightarrow> a) \<longleftrightarrow> (map_of m k = None \<longrightarrow> P d)"
  using assms by (auto split: option.splits dest: map_of_SomeD)

lemma set_object_values: "set (object_values m) = snd ` set m"
  by (auto simp: object_values_def)

text \<open>
  A property that holds of a new entry and is kept by the update of a game holds of every
  entry of \<open>statsMap\<close> at the end.
\<close>

lemma cb_player_inv:
  assumes new: "\<And>c. P (ca_new c)"
    and upd: "\<And>ps w a. P a \<Longrightarrow> P (ca_update ps w a)"
    and inv: "\<forall>(k, a) \<in> set m. P a"
    and run: "cb_player replay m i = Inr m'"
  shows "\<forall>(k, a) \<in> set m'. P a"
proof -
  let ?A = "\<lambda>c. case map_of m c of None \<Rightarrow> ca_new c | Some a \<Rightarrow> a"
  let ?M1 = "\<lambda>c. if map_of m c = None then obj_set c (?A c) m else m"
  let ?U = "\<lambda>c ps w. obj_set c (ca_update ps w (?A c)) (?M1 c)"
  have acc: "P (?A c)" for c
    using inv by (simp add: map_of_all [where P = P] new)
  have m1: "\<forall>(k, a) \<in> set (?M1 c). P a" for c
    using inv acc [of c] obj_set_all [where P = P, OF inv] by (cases "map_of m c = None") simp_all
  have u: "\<forall>(k, a) \<in> set (?U c ps w). P a" for c ps w
    by (rule obj_set_all [where P = P, OF m1]) (rule upd [OF acc])
  show ?thesis
  proof (cases "i = -1")
    case True
    with run inv show ?thesis by (simp add: cb_player_def)
  next
    case ni: False
    show ?thesis
    proof (cases "find (\<lambda>p. sp_playerIndex p = i) (settings_players replay)")
      case None
      with run inv ni show ?thesis by (simp add: cb_player_def)
    next
      case (Some p)
      show ?thesis
      proof (cases "sp_characterId p")
        case None
        with run inv ni Some show ?thesis by (simp add: cb_player_def)
      next
        case c: (Some c)
        show ?thesis
        proof (cases "find (\<lambda>p. ov_playerIndex p = i) (stats_overall replay)")
          case None
          with run ni Some c have "m' = ?M1 c" by (simp add: cb_player_def Let_def)
          with m1 [of c] show ?thesis by simp
        next
          case ps: (Some ps)
          show ?thesis
          proof (cases "lastStock (stats_stocks replay)")
            case (Inl err)
            with run ni Some c ps show ?thesis by (simp add: cb_player_def Let_def)
          next
            case (Inr ls)
            with run ni Some c ps have "m' = ?U c ps (stk_playerIndex ls \<noteq> i)"
              by (simp add: cb_player_def Let_def)
            with u [of c ps "stk_playerIndex ls \<noteq> i"] show ?thesis by simp
          qed
        qed
      qed
    qed
  qed
qed

lemma cb_replay_inv:
  assumes new: "\<And>c. P (ca_new c)"
    and upd: "\<And>ps w a. P a \<Longrightarrow> P (ca_update ps w a)"
    and inv: "\<forall>(k, a) \<in> set m. P a"
    and run: "cb_replay sel m replay = Inr m'"
  shows "\<forall>(k, a) \<in> set m'. P a"
proof -
  have fe: "\<forall>(k, a) \<in> set m'. P a"
    if "forEach (cb_player replay) is m = Inr m'" for "is"
    using inv that
    by (rule forEach_invariant [where f = "cb_player replay", rotated 1])
       (rule cb_player_inv [where P = P, OF new upd])
  from run have "m' = m \<or> (\<exists>is. forEach (cb_player replay) is m = Inr m')"
    supply forEach.simps [simp del]
    by (auto simp: cb_replay_def Let_def split: if_splits)
  with inv fe show ?thesis by blast
qed

lemma cs_statsMap_inv:
  assumes new: "\<And>c. P (ca_new c)"
    and upd: "\<And>ps w a. P a \<Longrightarrow> P (ca_update ps w a)"
    and run: "cs_statsMap replays sel = Inr m"
  shows "\<forall>(k, a) \<in> set m. P a"
  using run unfolding cs_statsMap_def
  by (rule forEach_invariant [where f = "cb_replay sel" and s = "[]", rotated 2])
     (simp_all add: cb_replay_inv [where P = P, OF new upd])

lemma cs_statsMap_ok:
  assumes "cs_statsMap replays sel = Inr m" and "(k, a) \<in> set m"
  shows "ca_wins a + ca_losses a = ca_totalGames a"
    and "ca_openingsCount a \<le> ca_totalGames a"
    and "ca_killsCount a \<le> ca_totalGames a"
proof -
  let ?P = "\<lambda>a. ca_wins a + ca_losses a = ca_totalGames a
    \<and> ca_openingsCount a \<le> ca_totalGames a \<and> ca_killsCount a \<le> ca_totalGames a"
  have "\<forall>(k, a) \<in> set m. ?P a"
  proof (rule cs_statsMap_inv [where P = ?P, OF _ _ assms(1)])
    show "?P (ca_new c)" for c by (simp add: ca_new_def)
    show "?P (ca_update ps w a)" if "?P a" for ps w a
      using that by (simp add: ca_update_def Let_def split: option.splits)
  qed
  with assms(2) have "?P a" by auto
  then show "ca_wins a + ca_losses a = ca_totalGames a"
    and "ca_openingsCount a \<le> ca_totalGames a"
    and "ca_killsCount a \<le> ca_totalGames a" by simp_all
qed

lemma obj_set_list_all: "list_all Q m \<Longrightarrow> Q (k, v) \<Longrightarrow> list_all Q (obj_set k v m)"
  by (induction m) auto

lemma map_of_list_all: "list_all Q m \<Longrightarrow> map_of m k = Some a \<Longrightarrow> Q (k, a)"
  by (auto simp: list_all_iff dest: map_of_SomeD)

lemma ma_step_facts:
  fixes m :: "((int \<times> int) \<times> MatchAcc) list"
  assumes new: "\<And>c d. P (ma_new c d)"
    and upd: "\<And>ps os w a. P a \<Longrightarrow> P (ma_update ps os w a)"
    and inv: "list_all (\<lambda>(k, a). P a) m"
  shows "list_all (\<lambda>(k, a). P a) (obj_set k (ma_new c d) m)"
    and "list_all (\<lambda>(k, a). P a)
           (obj_set k (ma_update ps os w (ma_new c d)) (obj_set k (ma_new c d) m))"
    and "map_of m k = Some a \<Longrightarrow> list_all (\<lambda>(k, a). P a) (obj_set k (ma_update ps os w a) m)"
proof -
  let ?Q = "\<lambda>(k :: int \<times> int, a). P a"
  show n: "list_all ?Q (obj_set k (ma_new c d) m)"
    using inv by (rule obj_set_list_all) (simp add: new)
  show "list_all ?Q (obj_set k (ma_update ps os w (ma_new c d)) (obj_set k (ma_new c d) m))"
    using n by (rule obj_set_list_all) (simp add: upd new)
  show "list_all ?Q (obj_set k (ma_update ps os w a) m)" if "map_of m k = Some a"
    using inv
  proof (rule obj_set_list_all)
    from map_of_list_all [OF inv that] show "?Q (k, ma_update ps os w a)"
      by (simp add: upd)
  qed
qed

lemma ma_replay_inv:
  assumes new: "\<And>c d. P (ma_new c d)"
    and upd: "\<And>ps os w a. P a \<Longrightarrow> P (ma_update ps os w a)"
    and inv: "list_all (\<lambda>(k, a). P a) m"
    and run: "ma_replay sel ch m replay = Inr m'"
  shows "list_all (\<lambda>(k, a). P a) m'"
  using run inv
  by (auto simp: ma_replay_def Let_def ma_step_facts [where P = P, OF new upd]
      split: if_splits sum.splits option.splits prod.splits)

lemma ms_statsMap_inv:
  assumes new: "\<And>c d. P (ma_new c d)"
    and upd: "\<And>ps os w a. P a \<Longrightarrow> P (ma_update ps os w a)"
    and run: "ms_statsMap replays sel ch = Inr m"
  shows "list_all (\<lambda>(k, a). P a) m"
  using run unfolding ms_statsMap_def
  by (rule forEach_invariant [where f = "ma_replay sel ch" and s = "[]", rotated 2])
     (simp_all add: ma_replay_inv [where P = P, OF new upd])

lemma ms_statsMap_ok:
  assumes "ms_statsMap replays sel ch = Inr m" and "(k, a) \<in> set m"
  shows "ma_wins a + ma_losses a = ma_totalGames a"
    and "ma_totalGames a = 0 \<Longrightarrow> ma_totalDamageTaken a = Fin 0"
proof -
  let ?P = "\<lambda>a. ma_wins a + ma_losses a = ma_totalGames a
    \<and> (ma_totalGames a = 0 \<longrightarrow> ma_totalDamageTaken a = Fin 0)"
  have "list_all (\<lambda>(k, a). ?P a) m"
  proof (rule ms_statsMap_inv [where P = ?P, OF _ _ assms(1)])
    show "?P (ma_new c d)" for c d by (simp add: ma_new_def)
    show "?P (ma_update ps os w a)" if "?P a" for ps os w a
      using that by (simp add: ma_update_def Let_def)
  qed
  with assms(2) have "?P a" by (auto simp: list_all_iff)
  then show "ma_wins a + ma_losses a = ma_totalGames a"
    and "ma_totalGames a = 0 \<Longrightarrow> ma_totalDamageTaken a = Fin 0" by simp_all
qed



lemma characterBreakdown_rows:
  assumes "characterBreakdown l replays sel sortBy sortDir = Inr (Some rows)"
  shows "\<exists>m. cs_statsMap replays sel = Inr m \<and> set rows = cs_row l ` snd ` set m"
  using assms
  by (force simp: characterBreakdown_def Let_def set_array_sort set_object_values
      split: if_splits sum.splits)

lemma matchupAnalysis_rows:
  assumes "matchupAnalysis l replays sel ch sortBy sortDir = Inr (Some rows)"
  shows "\<exists>m. ms_statsMap replays sel ch = Inr m \<and> set rows = ms_row l ` snd ` set m"
  using assms
  by (force simp: matchupAnalysis_def Let_def set_array_sort
      split: if_splits sum.splits)

subsection \<open>The components on the sample replays\<close>

lemmas sample_defs =
  sample_replay_def return_replay_def nostats_replay_def overall0_def overall1_def
  overall0b_def overall1b_def sample_lib_def

lemmas cb_defs =
  characterBreakdown_def cs_statsMap_def cb_replay_def cb_player_def lastStock_def
  ca_update_def ca_new_def truthy_ratio_def truthy_def falsy_def Let_def nth_opt_def
  object_values_def is_array_index_def cs_row_def array_sort_def compare_cells_def js_sub_def

lemmas ma_defs =
  matchupAnalysis_def ms_statsMap_def ma_replay_def ma_indices_def find_selected_def
  lastStock_def ma_update_def ma_new_def damage_or_0_def truthy_def falsy_def Let_def
  nth_opt_def ms_row_def array_sort_def compare_cells_def js_sub_def

lemma sample_breakdown_run:
  "characterBreakdown sample_lib [sample_replay] None CS_totalGames Desc
     = Inr (Some [fox_row, marth_row])"
  by (simp add: cb_defs sample_defs fox_row_def marth_row_def)

lemma sample_matchup_run:
  "matchupAnalysis sample_lib [sample_replay] (Some ''AAA#1'') None MS_totalGames Desc
     = Inr (Some [fox_marth_row])"
  by (simp add: ma_defs sample_defs fox_marth_row_def)

lemma sample_summary_run:
  "summary_winner_loser sample_replay = Inr (Some overall1, Some overall0)"
  by (simp add: summary_winner_loser_def lastStock_def sample_defs)

lemma three_games_breakdown_run:
  "characterBreakdown sample_lib [sample_replay, return_replay, nostats_replay] None
     CS_totalGames Desc = Inr (Some [fox_row2, marth_row2, unknown_row])"
  using double_half
  by (simp add: cb_defs sample_defs fox_row2_def marth_row2_def unknown_row_def)


lemma three_games_matchup_run:
  "matchupAnalysis sample_lib [nostats_replay, sample_replay, return_replay] (Some ''AAA#1'')
     None MS_totalGames Desc = Inr (Some [fox_marth_row2, fox_unknown_row])"
  using double_half
  by (simp add: ma_defs sample_defs fox_marth_row2_def fox_unknown_row_def)






lemma one_in_three_run:
  "characterBreakdown sample_lib [sample_replay, return_replay, return_replay] (Some ''AAA#1'')
     CS_totalGames Desc = Inr (Some [fox_row3])"
  using double_third double_third_100
  by (simp add: cb_defs sample_defs fox_row3_def)

section \<open>Aggregation: wins, losses, rates and averages\<close>

text \<open>
  C4 (as amended). In every row that the Character Breakdown or the Matchup Analysis
  reduction produces, over any list of replays, wins plus losses is the number of games,
  and the win rate is \<open>(wins / totalGames) * 100\<close>, in double arithmetic, when there are
  games and 0 otherwise. The row comes from an entry of the final \<open>statsMap\<close>, and each
  of its averages from the totals and counters of that entry by a guarded division: damage
  per opening by the count of openings, openings per kill by the count of kills (neither
  count exceeds the number of games), inputs per minute and damage dealt and taken by the
  number of games, the damage ratio by the damage taken; each is 0, and not the
  \<open>NaN\<close> of \<open>0 / 0\<close>, when its denominator is not positive. A row without games
  holds 0 in each of these columns.
\<close>

theorem aggregated_rows_consistent:
  "(characterBreakdown l replays sel sortBy sortDir = Inr (Some rows) \<and> row \<in> set rows \<longrightarrow>
      cs_wins row + cs_losses row = cs_totalGames row
      \<and> cs_winRate row =
          (if cs_totalGames row > 0
           then js_mul (js_div (Fin (of_nat (cs_wins row))) (Fin (of_nat (cs_totalGames row))))
                  (Fin 100)
           else Fin 0)
      \<and> (\<exists>m k stats. cs_statsMap replays sel = Inr m \<and> (k, stats) \<in> set m
            \<and> row = cs_row l stats
            \<and> ca_openingsCount stats \<le> cs_totalGames row
            \<and> ca_killsCount stats \<le> cs_totalGames row
            \<and> cs_averageDamagePerOpening row =
                (if ca_openingsCount stats > 0
                 then js_div (ca_totalDamagePerOpening stats)
                        (Fin (of_nat (ca_openingsCount stats)))
                 else Fin 0)
            \<and> cs_averageOpeningsPerKill row =
                (if ca_killsCount stats > 0
                 then js_div (ca_openingsPerKillTotal stats) (Fin (of_nat (ca_killsCount stats)))
                 else Fin 0)
            \<and> cs_averageInputsPerMinute row =
                (if cs_totalGames row > 0
                 then js_div (ca_inputsPerMinuteTotal stats) (Fin (of_nat (cs_totalGames row)))
                 else Fin 0))
      \<and> (cs_totalGames row = 0 \<longrightarrow>
            cs_winRate row = Fin 0 \<and> cs_averageDamagePerOpening row = Fin 0
            \<and> cs_averageOpeningsPerKill row = Fin 0 \<and> cs_averageInputsPerMinute row = Fin 0))
   \<and> (matchupAnalysis l replays sel ch msortBy sortDir = Inr (Some mrows) \<and> mrow \<in> set mrows
       \<longrightarrow>
      ms_wins mrow + ms_losses mrow = ms_totalGames mrow
      \<and> ms_winRate mrow =
          (if ms_totalGames mrow > 0
           then js_mul (js_div (Fin (of_nat (ms_wins mrow))) (Fin (of_nat (ms_totalGames mrow))))
                  (Fin 100)
           else Fin 0)
      \<and> (\<exists>m k stats. ms_statsMap replays sel ch = Inr m \<and> (k, stats) \<in> set m
            \<and> mrow = ms_row l stats
            \<and> ms_averageDamageDealt mrow =
                (if ms_totalGames mrow > 0
                 then js_div (ma_totalDamageDealt stats) (Fin (of_nat (ms_totalGames mrow)))
                 else Fin 0)
            \<and> ms_averageDamageTaken mrow =
                (if ms_totalGames mrow > 0
                 then js_div (ma_totalDamageTaken stats) (Fin (of_nat (ms_totalGames mrow)))
                 else Fin 0)
            \<and> ms_damageRatio mrow =
                (if js_gt (ma_totalDamageTaken stats) (Fin 0)
                 then js_div (ma_totalDamageDealt stats) (ma_totalDamageTaken stats)
                 else Fin 0))
      \<and> (ms_totalGames mrow = 0 \<longrightarrow>
            ms_winRate mrow = Fin 0 \<and> ms_averageDamageDealt mrow = Fin 0
            \<and> ms_averageDamageTaken mrow = Fin 0 \<and> ms_damageRatio mrow = Fin 0))"
proof (intro conjI impI)
  assume "characterBreakdown l replays sel sortBy sortDir = Inr (Some rows) \<and> row \<in> set rows"
  then have run: "characterBreakdown l replays sel sortBy sortDir = Inr (Some rows)"
    and row: "row \<in> set rows" by simp_all
  from characterBreakdown_rows [OF run] obtain m where
    m: "cs_statsMap replays sel = Inr m" and rows: "set rows = cs_row l ` snd ` set m"
    by blast
  from row rows obtain k stats where ks: "(k, stats) \<in> set m" and r: "row = cs_row l stats"
    by auto
  note ok = cs_statsMap_ok [OF m ks]
  from ok(1) r show "cs_wins row + cs_losses row = cs_totalGames row"
    by (simp add: cs_row_def)
  from r show "cs_winRate row =
      (if cs_totalGames row > 0
       then js_mul (js_div (Fin (of_nat (cs_wins row))) (Fin (of_nat (cs_totalGames row))))
              (Fin 100)
       else Fin 0)"
    by (simp add: cs_row_def)
  have "ca_openingsCount stats \<le> cs_totalGames row \<and> ca_killsCount stats \<le> cs_totalGames row
      \<and> cs_averageDamagePerOpening row =
          (if ca_openingsCount stats > 0
           then js_div (ca_totalDamagePerOpening stats) (Fin (of_nat (ca_openingsCount stats)))
           else Fin 0)
      \<and> cs_averageOpeningsPerKill row =
          (if ca_killsCount stats > 0
           then js_div (ca_openingsPerKillTotal stats) (Fin (of_nat (ca_killsCount stats)))
           else Fin 0)
      \<and> cs_averageInputsPerMinute row =
          (if cs_totalGames row > 0
           then js_div (ca_inputsPerMinuteTotal stats) (Fin (of_nat (cs_totalGames row)))
           else Fin 0)"
    using ok(2,3) r by (simp add: cs_row_def)
  with m ks r show "\<exists>m k stats. cs_statsMap replays sel = Inr m \<and> (k, stats) \<in> set m
      \<and> row = cs_row l stats
      \<and> ca_openingsCount stats \<le> cs_totalGames row
      \<and> ca_killsCount stats \<le> cs_totalGames row
      \<and> cs_averageDamagePerOpening row =
          (if ca_openingsCount stats > 0
           then js_div (ca_totalDamagePerOpening stats) (Fin (of_nat (ca_openingsCount stats)))
           else Fin 0)
      \<and> cs_averageOpeningsPerKill row =
          (if ca_killsCount stats > 0
           then js_div (ca_openingsPerKillTotal stats) (Fin (of_nat (ca_killsCount stats)))
           else Fin 0)
      \<and> cs_averageInputsPerMinute row =
          (if cs_totalGames row > 0
           then js_div (ca_inputsPerMinuteTotal stats) (Fin (of_nat (cs_totalGames row)))
           else Fin 0)"
    by blast
  show "cs_winRate row = Fin 0" "cs_averageDamagePerOpening row = Fin 0"
    "cs_averageOpeningsPerKill row = Fin 0" "cs_averageInputsPerMinute row = Fin 0"
    if "cs_totalGames row = 0"
    using that ok(2,3) r by (simp_all add: cs_row_def)
next
  assume "matchupAnalysis l replays sel ch msortBy sortDir = Inr (Some mrows)
    \<and> mrow \<in> set mrows"
  then have run: "matchupAnalysis l replays sel ch msortBy sortDir = Inr (Some mrows)"
    and row: "mrow \<in> set mrows" by simp_all
  from matchupAnalysis_rows [OF run] obtain m where
    m: "ms_statsMap replays sel ch = Inr m" and rows: "set mrows = ms_row l ` snd ` set m"
    by blast
  from row rows obtain k stats where ks: "(k, stats) \<in> set m" and r: "mrow = ms_row l stats"
    by auto
  note ok = ms_statsMap_ok [OF m ks]
  from ok(1) r show "ms_wins mrow + ms_losses mrow = ms_totalGames mrow"
    by (simp add: ms_row_def)
  from r show "ms_winRate mrow =
      (if ms_totalGames mrow > 0
       then js_mul (js_div (Fin (of_nat (ms_wins mrow))) (Fin (of_nat (ms_totalGames mrow))))
              (Fin 100)
       else Fin 0)"
    by (simp add: ms_row_def)
  have "ms_averageDamageDealt mrow =
          (if ms_totalGames mrow > 0
           then js_div (ma_totalDamageDealt stats) (Fin (of_nat (ms_totalGames mrow)))
           else Fin 0)
      \<and> ms_averageDamageTaken mrow =
          (if ms_totalGames mrow > 0
           then js_div (ma_totalDamageTaken stats) (Fin (of_nat (ms_totalGames mrow)))
           else Fin 0)
      \<and> ms_damageRatio mrow =
          (if js_gt (ma_totalDamageTaken stats) (Fin 0)
           then js_div (ma_totalDamageDealt stats) (ma_totalDamageTaken stats)
           else Fin 0)"
    using r by (simp add: ms_row_def)
  with m ks r show "\<exists>m k stats. ms_statsMap replays sel ch = Inr m \<and> (k, stats) \<in> set m
      \<and> mrow = ms_row l stats
      \<and> ms_averageDamageDealt mrow =
          (if ms_totalGames mrow > 0
           then js_div (ma_totalDamageDealt stats) (Fin (of_nat (ms_totalGames mrow)))
           else Fin 0)
      \<and> ms_averageDamageTaken mrow =
          (if ms_totalGames mrow > 0
           then js_div (ma_totalDamageTaken stats) (Fin (of_nat (ms_totalGames mrow)))
           else Fin 0)
      \<and> ms_damageRatio mrow =
          (if js_gt (ma_totalDamageTaken stats) (Fin 0)
           then js_div (ma_totalDamageDealt stats) (ma_totalDamageTaken stats)
           else Fin 0)"
    by blast
  show "ms_winRate mrow = Fin 0" "ms_averageDamageDealt mrow = Fin 0"
    "ms_averageDamageTaken mrow = Fin 0" "ms_damageRatio mrow = Fin 0"
    if "ms_totalGames mrow = 0"
    using that r ok(2) by (simp_all add: ms_row_def)
qed

theorem aggregated_rows_consistent_witness:
  "characterBreakdown sample_lib [sample_replay, return_replay, nostats_replay] None
     CS_totalGames Desc = Inr (Some [fox_row2, marth_row2, unknown_row])
   \<and> cs_wins fox_row2 + cs_losses fox_row2 = cs_totalGames fox_row2
   \<and> cs_totalGames fox_row2 = 2
   \<and> cs_winRate fox_row2 = js_mul (js_div (Fin 1) (Fin 2)) (Fin 100)
   \<and> (\<exists>m k stats. cs_statsMap [sample_replay, return_replay, nostats_replay] None = Inr m
         \<and> (k, stats) \<in> set m \<and> fox_row2 = cs_row sample_lib stats
         \<and> ca_openingsCount stats \<le> 2 \<and> ca_killsCount stats \<le> 2)
   \<and> cs_averageOpeningsPerKill fox_row2 = js_div (Fin 3) (Fin 1)
   \<and> cs_totalGames unknown_row = 0
   \<and> cs_winRate unknown_row = Fin 0 \<and> cs_averageDamagePerOpening unknown_row = Fin 0
   \<and> cs_averageOpeningsPerKill unknown_row = Fin 0
   \<and> cs_averageInputsPerMinute unknown_row = Fin 0
   \<and> matchupAnalysis sample_lib [nostats_replay, sample_replay, return_replay]
       (Some ''AAA#1'') None MS_totalGames Desc = Inr (Some [fox_marth_row2, fox_unknown_row])
   \<and> ms_wins fox_marth_row2 + ms_losses fox_marth_row2 = ms_totalGames fox_marth_row2
   \<and> ms_totalGames fox_marth_row2 = 2
   \<and> ms_winRate fox_marth_row2 = js_mul (js_div (Fin 1) (Fin 2)) (Fin 100)
   \<and> ms_damageRatio fox_marth_row2 = js_div (Fin 500) (Fin 500)
   \<and> ms_totalGames fox_unknown_row = 0
   \<and> ms_winRate fox_unknown_row = Fin 0 \<and> ms_averageDamageDealt fox_unknown_row = Fin 0
   \<and> ms_averageDamageTaken fox_unknown_row = Fin 0 \<and> ms_damageRatio fox_unknown_row = Fin 0"
proof -
  let ?cb = "[sample_replay, return_replay, nostats_replay]"
  let ?ma = "[nostats_replay, sample_replay, return_replay]"
  have f2: "cs_totalGames fox_row2 = 2" "cs_wins fox_row2 = 1"
    "cs_averageOpeningsPerKill fox_row2 = Fin 3"
    by (simp_all add: fox_row2_def)
  have u0: "cs_totalGames unknown_row = 0" by (simp add: unknown_row_def)
  have m2: "ms_totalGames fox_marth_row2 = 2" "ms_wins fox_marth_row2 = 1"
    "ms_damageRatio fox_marth_row2 = Fin 1"
    by (simp_all add: fox_marth_row2_def)
  have n0: "ms_totalGames fox_unknown_row = 0" by (simp add: fox_unknown_row_def)
  have mem: "fox_row2 \<in> set [fox_row2, marth_row2, unknown_row]"
    "unknown_row \<in> set [fox_row2, marth_row2, unknown_row]"
    "fox_marth_row2 \<in> set [fox_marth_row2, fox_unknown_row]"
    "fox_unknown_row \<in> set [fox_marth_row2, fox_unknown_row]"
    by simp_all
  note a = aggregated_rows_consistent
    [where l = sample_lib and replays = ?cb and sel = None and sortBy = CS_totalGames
       and sortDir = Desc and rows = "[fox_row2, marth_row2, unknown_row]" and row = fox_row2]
  note b = aggregated_rows_consistent
    [where l = sample_lib and replays = ?cb and sel = None and sortBy = CS_totalGames
       and sortDir = Desc and rows = "[fox_row2, marth_row2, unknown_row]" and row = unknown_row]
  note c = aggregated_rows_consistent
    [where l = sample_lib and replays = ?ma and sel = "Some ''AAA#1''" and ch = None
       and msortBy = MS_totalGames and sortDir = Desc
       and mrows = "[fox_marth_row2, fox_unknown_row]" and mrow = fox_marth_row2]
  note d = aggregated_rows_consistent
    [where l = sample_lib and replays = ?ma and sel = "Some ''AAA#1''" and ch = None
       and msortBy = MS_totalGames and sortDir = Desc
       and mrows = "[fox_marth_row2, fox_unknown_row]" and mrow = fox_unknown_row]
  from a [THEN conjunct1, rule_format, OF conjI [OF three_games_breakdown_run mem(1)]]
  have a1: "cs_wins fox_row2 + cs_losses fox_row2 = cs_totalGames fox_row2"
    and a2: "cs_winRate fox_row2 = js_mul (js_div (Fin 1) (Fin 2)) (Fin 100)"
    and a3: "\<exists>m k stats. cs_statsMap ?cb None = Inr m
         \<and> (k, stats) \<in> set m \<and> fox_row2 = cs_row sample_lib stats
         \<and> ca_openingsCount stats \<le> 2 \<and> ca_killsCount stats \<le> 2"
    by (simp_all only: f2) (simp, blast)
  from b [THEN conjunct1, rule_format, OF conjI [OF three_games_breakdown_run mem(2)]] u0
  have b1: "cs_winRate unknown_row = Fin 0 \<and> cs_averageDamagePerOpening unknown_row = Fin 0
      \<and> cs_averageOpeningsPerKill unknown_row = Fin 0
      \<and> cs_averageInputsPerMinute unknown_row = Fin 0"
    by blast
  from c [THEN conjunct2, rule_format, OF conjI [OF three_games_matchup_run mem(3)]]
  have c1: "ms_wins fox_marth_row2 + ms_losses fox_marth_row2 = ms_totalGames fox_marth_row2"
    and c2: "ms_winRate fox_marth_row2 = js_mul (js_div (Fin 1) (Fin 2)) (Fin 100)"
    by (simp_all only: m2) simp
  from d [THEN conjunct2, rule_format, OF conjI [OF three_games_matchup_run mem(4)]] n0
  have d1: "ms_winRate fox_unknown_row = Fin 0 \<and> ms_averageDamageDealt fox_unknown_row = Fin 0
      \<and> ms_averageDamageTaken fox_unknown_row = Fin 0
      \<and> ms_damageRatio fox_unknown_row = Fin 0"
    by blast
  have e: "js_div (Fin 3) (Fin 1) = Fin 3" "js_div (Fin 500) (Fin 500) = Fin 1" by simp_all
  from three_games_breakdown_run three_games_matchup_run a1 a2 a3 b1 c1 c2 d1 f2 u0 m2 n0 e
  show ?thesis by (simp only: simp_thms)
qed

text \<open>
  As stated the claim fails: the win rate of a row is not \<open>100 * wins / totalGames\<close>.
  The components compute \<open>(wins / totalGames) * 100\<close>, and in double arithmetic the two
  differ. With one win in three games the row holds 33.33333333333333, whereas
  \<open>100 * 1 / 3\<close>, which is also the double nearest to one hundred thirds, is
  33.333333333333336.
\<close>

theorem aggregated_rows_consistent_counterexample:
  "characterBreakdown sample_lib [sample_replay, return_replay, return_replay] (Some ''AAA#1'')
     CS_totalGames Desc = Inr (Some [fox_row3])
   \<and> cs_wins fox_row3 = 1 \<and> cs_totalGames fox_row3 = 3
   \<and> cs_winRate fox_row3 = Fin (4691249611844266 / 2 ^ 47)
   \<and> js_div (js_mul (Fin 100) (Fin (of_nat (cs_wins fox_row3))))
        (Fin (of_nat (cs_totalGames fox_row3))) = Fin (4691249611844267 / 2 ^ 47)
   \<and> round_double (100 * of_nat (cs_wins fox_row3) / of_nat (cs_totalGames fox_row3))
       = Fin (4691249611844267 / 2 ^ 47)"
  using double_100_3 by (simp add: one_in_three_run) (simp add: fox_row3_def)

section \<open>Aggregation: the order of the rows\<close>











section \<open>Winner determination\<close>

text \<open>
  All three components read the last element of \<open>stats.stocks\<close> without a check:
  on a non-empty list the read is in bounds, on an empty one it throws.
\<close>

lemma lastStock_nonempty: "stocks \<noteq> [] \<Longrightarrow> lastStock stocks = Inr (last stocks)"
  by (simp add: lastStock_def last_conv_nth)

lemma lastStock_empty: "lastStock [] = Inl TypeError"
  by (simp add: lastStock_def)

lemma summary_winner_loser_empty:
  "stats_stocks replay = [] \<Longrightarrow> summary_winner_loser replay = Inl TypeError"
  by (simp add: summary_winner_loser_def lastStock_def)

lemma summary_winner_loser_nonempty:
  "stats_stocks replay \<noteq> [] \<Longrightarrow>
   summary_winner_loser replay =
     Inr (find (\<lambda>p. ov_playerIndex p = stk_playerIndex (last (stats_stocks replay)))
            (stats_overall replay),
          find (\<lambda>p. ov_playerIndex p \<noteq> stk_playerIndex (last (stats_stocks replay)))
            (stats_overall replay))"
  by (simp add: summary_winner_loser_def lastStock_nonempty Let_def)

lemma forEach_total:
  "(\<And>s x. x \<in> set xs \<Longrightarrow> \<exists>s'. f s x = Inr s') \<Longrightarrow> \<exists>s'. forEach f xs s = Inr s'"
proof (induction xs arbitrary: s)
  case Nil
  then show ?case by simp
next
  case (Cons x xs)
  from Cons.prems [of x s] obtain s1 where "f s x = Inr s1" by auto
  moreover from Cons.IH [of s1] Cons.prems obtain s' where "forEach f xs s1 = Inr s'"
    by auto
  ultimately show ?case by simp
qed

lemma cb_player_total:
  "stats_stocks replay \<noteq> [] \<Longrightarrow> \<exists>m'. cb_player replay m i = Inr m'"
  by (simp add: cb_player_def Let_def lastStock_def split: option.splits)

lemma cb_replay_total:
  assumes "stats_stocks replay \<noteq> []"
  shows "\<exists>m'. cb_replay sel m replay = Inr m'"
proof -
  have "\<exists>m'. forEach (cb_player replay) is m = Inr m'" for "is"
    by (rule forEach_total) (rule cb_player_total [OF assms])
  then show ?thesis
    by (simp add: cb_replay_def Let_def)
qed

lemma cs_statsMap_total:
  assumes "\<forall>replay \<in> set replays. stats_stocks replay \<noteq> []"
  shows "\<exists>m. cs_statsMap replays sel = Inr m"
  unfolding cs_statsMap_def
  using assms by (intro forEach_total cb_replay_total) blast

text \<open>
  C9. The claim has every component name as winner the player whose \<open>playerIndex\<close>
  differs from the last stock's. Character Breakdown and Matchup Analysis do; the summary
  component takes the last stock's \<open>playerIndex\<close> itself as \<open>winnerIndex\<close>. On the
  sample replay, whose last stock belongs to player 1, the summary's winner is player 1,
  while the two tables count the game as a win for player 0 and a loss for player 1.
\<close>

theorem winner_determination_disagrees:
  "stats_stocks sample_replay \<noteq> []
   \<and> stk_playerIndex (last (stats_stocks sample_replay)) = 1
   \<and> summary_winner_loser sample_replay = Inr (Some overall1, Some overall0)
   \<and> ov_playerIndex overall1 = 1
   \<and> characterBreakdown sample_lib [sample_replay] None CS_totalGames Desc
       = Inr (Some [fox_row, marth_row])
   \<and> cs_wins fox_row = 1 \<and> cs_losses marth_row = 1
   \<and> matchupAnalysis sample_lib [sample_replay] (Some ''AAA#1'') None MS_totalGames Desc
       = Inr (Some [fox_marth_row])
   \<and> ms_wins fox_marth_row = 1"
  by (simp add: sample_summary_run sample_breakdown_run sample_matchup_run)
     (simp add: sample_replay_def overall1_def fox_row_def marth_row_def fox_marth_row_def)

end

